theory Spec2Isabelle
  imports Main "HOL-Library.Sublist"
begin

section \<open>Storage keys of the local filesystem adapter\<close>

text \<open>
  \<^verbatim>\<open>destinationKey.replace(/\.\./g, '')\<close>: a left-to-right scan that deletes every
  non-overlapping pair of adjacent dots and copies every other character.
\<close>

fun remove_dotdot :: "string \<Rightarrow> string" where
  "remove_dotdot [] = []"
| "remove_dotdot [c] = [c]"
| "remove_dotdot (a # b # rest) =
     (if a = CHR ''.'' \<and> b = CHR ''.'' then remove_dotdot rest
      else a # remove_dotdot (b # rest))"

text \<open>\<^verbatim>\<open>.replace(/^\/+/, '')\<close>: the longest run of slashes at the start is dropped.\<close>

definition strip_leading_slashes :: "string \<Rightarrow> string" where
  "strip_leading_slashes s = dropWhile (\<lambda>c. c = CHR ''/'') s"

text \<open>The \<^verbatim>\<open>safeKey\<close> of \<^verbatim>\<open>uploadFile\<close> and \<^verbatim>\<open>uploadBuffer\<close>.\<close>

definition safeKey :: "string \<Rightarrow> string" where
  "safeKey destinationKey = strip_leading_slashes (remove_dotdot destinationKey)"

text \<open>An executable test for two adjacent dots anywhere in a string.\<close>

fun has_dotdot :: "string \<Rightarrow> bool" where
  "has_dotdot (a # b # rest) = ((a = CHR ''.'' \<and> b = CHR ''.'') \<or> has_dotdot (b # rest))"
| "has_dotdot _ = False"

section \<open>Path joining\<close>

text \<open>
  The adapter joins the root directory and the key with \<^verbatim>\<open>path.join\<close> of the runtime's
  POSIX path library, which is not part of the repository. The definitions below follow
  the library's documented behaviour: the non-empty arguments are joined by a slash and the
  result is normalized, that is empty and \<^verbatim>\<open>.\<close> segments are dropped and every \<^verbatim>\<open>..\<close>
  segment removes the segment before it (an absolute path never climbs above \<^verbatim>\<open>/\<close>).
\<close>

fun split_slash :: "string \<Rightarrow> string list" where
  "split_slash [] = [[]]"
| "split_slash (c # cs) =
     (if c = CHR ''/'' then [] # split_slash cs
      else (case split_slash cs of
              seg # segs \<Rightarrow> (c # seg) # segs
            | [] \<Rightarrow> [[c]]))"

fun join_slash :: "string list \<Rightarrow> string" where
  "join_slash [] = []"
| "join_slash [seg] = seg"
| "join_slash (seg # segs) = seg @ CHR ''/'' # join_slash segs"

fun normalizeString :: "bool \<Rightarrow> string list \<Rightarrow> string list \<Rightarrow> string list" where
  "normalizeString allowAboveRoot res [] = rev res"
| "normalizeString allowAboveRoot res (seg # segs) =
     (if seg = [] \<or> seg = ''.'' then normalizeString allowAboveRoot res segs
      else if seg = ''..'' then
        (case res of
           [] \<Rightarrow> normalizeString allowAboveRoot (if allowAboveRoot then [''..''] else []) segs
         | lastSegment # below \<Rightarrow>
             if lastSegment \<noteq> ''..'' then normalizeString allowAboveRoot below segs
             else normalizeString allowAboveRoot (if allowAboveRoot then ''..'' # res else res) segs)
      else normalizeString allowAboveRoot (seg # res) segs)"

definition isAbsolute :: "string \<Rightarrow> bool" where
  "isAbsolute p = (case p of [] \<Rightarrow> False | c # _ \<Rightarrow> c = CHR ''/'')"

definition path_segments :: "string \<Rightarrow> string list" where
  "path_segments p = normalizeString (\<not> isAbsolute p) [] (split_slash p)"

definition path_normalize :: "string \<Rightarrow> string" where
  "path_normalize p =
     (if p = [] then ''.''
      else let trailingSeparator = (last p = CHR ''/'');
               segs = path_segments p
           in if segs = [] then
                (if isAbsolute p then ''/'' else if trailingSeparator then ''./'' else ''.'')
              else (if isAbsolute p then ''/'' else [])
                   @ join_slash segs
                   @ (if trailingSeparator then ''/'' else []))"

definition path_join :: "string list \<Rightarrow> string" where
  "path_join args =
     (let parts = filter (\<lambda>s. s \<noteq> []) args
      in if parts = [] then ''.'' else path_normalize (join_slash parts))"

text \<open>
  A path lies under a root directory when, after normalization, the root's segments are
  the first segments of the path and both are absolute or both relative.
\<close>

definition under_root :: "string \<Rightarrow> string \<Rightarrow> bool" where
  "under_root root p =
     (isAbsolute p = isAbsolute root \<and> prefix (path_segments root) (path_segments p))"

section \<open>The local filesystem adapter\<close>

text \<open>
  The file system holds regular files, a finite map from normalized paths to bytes, and
  directories, a set of normalized paths. A path names at most one of the two.
  \<^verbatim>\<open>fs.unlink\<close> succeeds exactly on a regular file, so \<^verbatim>\<open>deleteFile\<close> needs the map alone.
\<close>

type_synonym files = "string \<rightharpoonup> string"

text \<open>
  A thrown value is an \<^verbatim>\<open>Error\<close> object with its message, or some other value.
\<close>

datatype error = Error string | Thrown string

record filesystem =
  regular :: files
  directories :: "string set"

text \<open>
  \<^verbatim>\<open>path.dirname\<close> of the same library: trailing slashes and the last segment are
  dropped; what is left is the directory, \<^verbatim>\<open>/\<close> or \<^verbatim>\<open>.\<close> when nothing is left.
\<close>

definition path_dirname :: "string \<Rightarrow> string" where
  "path_dirname p =
     (case p of
        [] \<Rightarrow> ''.''
      | c # body \<Rightarrow>
          (let hasRoot = (c = CHR ''/'');
               before = dropWhile (\<lambda>x. x \<noteq> CHR ''/'')
                          (dropWhile (\<lambda>x. x = CHR ''/'') (rev body))
           in case before of
                [] \<Rightarrow> (if hasRoot then ''/'' else ''.'')
              | _ # kept \<Rightarrow>
                  if hasRoot \<and> kept = [] then ''//'' else c # rev kept))"

text \<open>
  A directory and the directories above it, from the top down, each as its normalized
  path.
\<close>

definition render_path :: "bool \<Rightarrow> string list \<Rightarrow> string" where
  "render_path absolute segs =
     (if segs = [] then (if absolute then ''/'' else ''.'')
      else (if absolute then ''/'' else []) @ join_slash segs)"

definition dir_chain :: "string \<Rightarrow> string list" where
  "dir_chain p = map (render_path (isAbsolute p)) (prefixes (path_segments p))"

text \<open>
  \<^verbatim>\<open>fs.mkdir(p, { recursive: true })\<close> creates the directory and those above it; it throws
  when one of them is a regular file. \<^verbatim>\<open>fs.writeFile\<close> and the write half of
  \<^verbatim>\<open>fs.copyFile\<close> throw when the destination is a directory or ends with a slash; the
  adapter calls them only after it has created the directory of the destination.
\<close>

definition mkdir_recursive :: "string \<Rightarrow> filesystem \<Rightarrow> error + filesystem" where
  "mkdir_recursive p fs =
     (if list_ex (\<lambda>d. regular fs d \<noteq> None) (dir_chain p) then Inl (Error ''EEXIST'')
      else Inr (fs\<lparr>directories := directories fs \<union> set (dir_chain p)\<rparr>))"

definition writeFile :: "string \<Rightarrow> string \<Rightarrow> filesystem \<Rightarrow> error + filesystem" where
  "writeFile p bytes fs =
     (if p = [] \<or> last p = CHR ''/'' \<or> p \<in> directories fs then Inl (Error ''EISDIR'')
      else Inr (fs\<lparr>regular := (regular fs)(p \<mapsto> bytes)\<rparr>))"

definition readFile :: "string \<Rightarrow> filesystem \<Rightarrow> error + string" where
  "readFile p fs =
     (case regular fs (path_normalize p) of
        None \<Rightarrow> Inl (Error ''ENOENT'')
      | Some bytes \<Rightarrow> Inr bytes)"

record LocalStorageAdapter =
  uploadsDir :: string
  baseUrl :: string

record UploadResult =
  key :: string
  url :: string
  size' :: nat
  etag :: "nat \<times> nat"

definition getPublicUrl :: "LocalStorageAdapter \<Rightarrow> string \<Rightarrow> string" where
  "getPublicUrl this k =
     (if baseUrl this \<noteq> [] then baseUrl this @ ''/uploads/courses/'' @ k
      else ''/uploads/courses/'' @ k)"

text \<open>
  \<^verbatim>\<open>ensureDirectory\<close> creates the root and rethrows a failure.
\<close>

definition ensureDirectory :: "LocalStorageAdapter \<Rightarrow> filesystem \<Rightarrow> error + filesystem" where
  "ensureDirectory this fs = mkdir_recursive (uploadsDir this) fs"

text \<open>
  \<^verbatim>\<open>uploadFile\<close>: after the root and the directory of the destination are created, the
  source file is copied to the joined path of the sanitized key. The ETag is the text of
  the modification time and of the size, joined by a dash, kept here as the pair of the
  two numbers. \<open>now\<close> is the clock at the time of the copy. Every failing filesystem call
  ends the upload with its exception.
\<close>

definition uploadFile ::
  "LocalStorageAdapter \<Rightarrow> nat \<Rightarrow> string \<Rightarrow> string \<Rightarrow> filesystem
     \<Rightarrow> error + (UploadResult \<times> filesystem)" where
  "uploadFile this now filePath destinationKey fs =
     (case ensureDirectory this fs of
        Inl e \<Rightarrow> Inl e
      | Inr fs1 \<Rightarrow>
          (let safe = safeKey destinationKey;
               destinationPath = path_join [uploadsDir this, safe];
               destinationDir = path_dirname destinationPath
           in case mkdir_recursive destinationDir fs1 of
                Inl e \<Rightarrow> Inl e
              | Inr fs2 \<Rightarrow>
                  (case readFile filePath fs2 of
                     Inl e \<Rightarrow> Inl e
                   | Inr bytes \<Rightarrow>
                       (case writeFile destinationPath bytes fs2 of
                          Inl e \<Rightarrow> Inl e
                        | Inr fs3 \<Rightarrow>
                            Inr (\<lparr>key = safe, url = getPublicUrl this safe,
                                  size' = length bytes, etag = (now, length bytes)\<rparr>,
                                 fs3)))))"

text \<open>\<^verbatim>\<open>uploadBuffer\<close>: the same with the bytes given.\<close>

definition uploadBuffer ::
  "LocalStorageAdapter \<Rightarrow> nat \<Rightarrow> string \<Rightarrow> string \<Rightarrow> filesystem
     \<Rightarrow> error + (UploadResult \<times> filesystem)" where
  "uploadBuffer this now buffer destinationKey fs =
     (case ensureDirectory this fs of
        Inl e \<Rightarrow> Inl e
      | Inr fs1 \<Rightarrow>
          (let safe = safeKey destinationKey;
               destinationPath = path_join [uploadsDir this, safe];
               destinationDir = path_dirname destinationPath
           in case mkdir_recursive destinationDir fs1 of
                Inl e \<Rightarrow> Inl e
              | Inr fs2 \<Rightarrow>
                  (case writeFile destinationPath buffer fs2 of
                     Inl e \<Rightarrow> Inl e
                   | Inr fs3 \<Rightarrow>
                       Inr (\<lparr>key = safe, url = getPublicUrl this safe,
                             size' = length buffer, etag = (now, length buffer)\<rparr>,
                            fs3))))"

text \<open>
  \<^verbatim>\<open>deleteFile\<close>: the key is joined to the root as it is given; a failing unlink is caught
  and reported as \<^verbatim>\<open>false\<close>.
\<close>

definition deleteFile :: "LocalStorageAdapter \<Rightarrow> string \<Rightarrow> files \<Rightarrow> bool \<times> files" where
  "deleteFile this k fs =
     (let filePath = path_join [uploadsDir this, k]
      in case fs filePath of
           None \<Rightarrow> (False, fs)
         | Some _ \<Rightarrow> (True, fs(filePath := None)))"

fun deleteFiles :: "LocalStorageAdapter \<Rightarrow> string list \<Rightarrow> files \<Rightarrow> nat \<times> files" where
  "deleteFiles this [] fs = (0, fs)"
| "deleteFiles this (k # ks) fs =
     (let (success, fs') = deleteFile this k fs;
          (deletedCount, fs'') = deleteFiles this ks fs'
      in ((if success then 1 else 0) + deletedCount, fs''))"

section \<open>The capability contract and its surroundings\<close>

text \<open>
  What lies outside the process is a record of oracles: the environment variables, the
  working directory, the course table of the database, and the outcome of each remote or
  filesystem request an adapter can issue (an \<open>Inl\<close> outcome is a thrown exception).
  \<open>local_probe\<close> is the local health check's creation of the root directory followed by
  the write and removal of its sentinel file. \<open>send_HeadBucket\<close> and
  \<open>send_CreateInvalidation\<close> stand for loading the SDK, building the client and sending
  the command to the bucket or to the distribution with the given paths;
  \<open>fetch_purge_cache\<close> is the request to the zone's purge endpoint with the zone
  identifier, the token and the URLs to purge.
\<close>

record course =
  storageKey :: "string option"

record response =
  ok :: bool
  body_text :: "error + string"

record sys =
  env :: "string \<rightharpoonup> string"
  cwd :: string
  getCourse :: "string \<Rightarrow> error + course option"
  local_probe :: "string \<Rightarrow> error + unit"
  send_HeadBucket :: "string \<Rightarrow> error + unit"
  send_CreateInvalidation :: "string \<Rightarrow> string list \<Rightarrow> error + unit"
  fetch_purge_cache :: "string \<Rightarrow> string \<Rightarrow> string list \<Rightarrow> error + response"

text \<open>Truthiness of a value that is a string or \<^verbatim>\<open>undefined\<close>, and its text in a template.\<close>

definition truthy :: "string option \<Rightarrow> bool" where
  "truthy v = (case v of None \<Rightarrow> False | Some s \<Rightarrow> s \<noteq> [])"

definition str :: "string option \<Rightarrow> string" where
  "str v = (case v of None \<Rightarrow> ''undefined'' | Some s \<Rightarrow> s)"

definition try_catch :: "error + 'a \<Rightarrow> (error \<Rightarrow> error + 'a) \<Rightarrow> error + 'a" where
  "try_catch body handler = (case body of Inl e \<Rightarrow> handler e | Inr v \<Rightarrow> Inr v)"

datatype provider = Local | CloudFlareR2 | S3CloudFront

text \<open>
  The members of the \<^verbatim>\<open>StorageAdapter\<close> interface that the factory and the services
  above it use. The asynchronous members take the outside world as an argument.
\<close>

record StorageAdapter =
  type' :: provider
  cdnEnabled :: bool
  healthCheck :: "sys \<Rightarrow> bool"
  purgeCdnCache :: "sys \<Rightarrow> string list \<Rightarrow> error + bool"

text \<open>An object literal with its properties in order, as \<^verbatim>\<open>Object.entries\<close> lists them.\<close>

type_synonym config = "(string \<times> string option) list"

definition field :: "config \<Rightarrow> string \<Rightarrow> string option" where
  "field c k = (case map_of c k of None \<Rightarrow> None | Some v \<Rightarrow> v)"

subsection \<open>Local adapter as a storage adapter\<close>

definition new_LocalStorageAdapter ::
  "sys \<Rightarrow> string option \<Rightarrow> string option \<Rightarrow> LocalStorageAdapter" where
  "new_LocalStorageAdapter w dir base =
     \<lparr>uploadsDir = (if truthy dir then str dir else path_join [cwd w, ''uploads'', ''courses'']),
      baseUrl = (if truthy base then str base
                 else if truthy (env w ''PUBLIC_DOMAIN'') then str (env w ''PUBLIC_DOMAIN'')
                 else [])\<rparr>"

definition Local_healthCheck :: "LocalStorageAdapter \<Rightarrow> sys \<Rightarrow> bool" where
  "Local_healthCheck this w =
     (case local_probe w (uploadsDir this) of Inl _ \<Rightarrow> False | Inr _ \<Rightarrow> True)"

definition Local_purgeCdnCache :: "LocalStorageAdapter \<Rightarrow> sys \<Rightarrow> string list \<Rightarrow> error + bool" where
  "Local_purgeCdnCache this w ks = Inr True"

definition LocalStorageAdapter_iface :: "LocalStorageAdapter \<Rightarrow> StorageAdapter" where
  "LocalStorageAdapter_iface this =
     \<lparr>type' = Local, cdnEnabled = False,
      healthCheck = Local_healthCheck this,
      purgeCdnCache = Local_purgeCdnCache this\<rparr>"

subsection \<open>CloudFlare R2 adapter\<close>

definition R2_getPublicUrl :: "config \<Rightarrow> string \<Rightarrow> string" where
  "R2_getPublicUrl this k = ''https://'' @ str (field this ''cdnDomain'') @ ''/'' @ k"

definition R2_healthCheck :: "config \<Rightarrow> sys \<Rightarrow> bool" where
  "R2_healthCheck this w =
     (case send_HeadBucket w (str (field this ''bucketName'')) of
        Inl _ \<Rightarrow> False | Inr _ \<Rightarrow> True)"

definition R2_purgeCdnCache :: "config \<Rightarrow> sys \<Rightarrow> string list \<Rightarrow> error + bool" where
  "R2_purgeCdnCache this w ks =
     try_catch
       (let zoneId = env w ''CLOUDFLARE_ZONE_ID'';
            apiToken = env w ''CLOUDFLARE_API_TOKEN''
        in if \<not> truthy zoneId \<or> \<not> truthy apiToken then Inr False
           else let urls = map (R2_getPublicUrl this) ks
                in case fetch_purge_cache w (str zoneId) (str apiToken) urls of
                     Inl e \<Rightarrow> Inl e
                   | Inr resp \<Rightarrow>
                       if \<not> ok resp then
                         (case body_text resp of Inl e \<Rightarrow> Inl e | Inr _ \<Rightarrow> Inr False)
                       else Inr True)
       (\<lambda>e. Inr False)"

definition CloudFlareR2Adapter :: "config \<Rightarrow> StorageAdapter" where
  "CloudFlareR2Adapter cfg =
     \<lparr>type' = CloudFlareR2, cdnEnabled = True,
      healthCheck = R2_healthCheck cfg,
      purgeCdnCache = R2_purgeCdnCache cfg\<rparr>"

subsection \<open>S3 and CloudFront adapter\<close>

definition S3_healthCheck :: "config \<Rightarrow> sys \<Rightarrow> bool" where
  "S3_healthCheck this w =
     (case send_HeadBucket w (str (field this ''bucketName'')) of
        Inl _ \<Rightarrow> False | Inr _ \<Rightarrow> True)"

definition S3_purgeCdnCache :: "config \<Rightarrow> sys \<Rightarrow> string list \<Rightarrow> error + bool" where
  "S3_purgeCdnCache this w ks =
     try_catch
       (if \<not> truthy (field this ''cloudFrontDistributionId'') then Inr False
        else let paths = map (\<lambda>k. ''/'' @ k) ks
             in case send_CreateInvalidation w
                       (str (field this ''cloudFrontDistributionId'')) paths of
                  Inl e \<Rightarrow> Inl e
                | Inr _ \<Rightarrow> Inr True)
       (\<lambda>e. Inr False)"

definition S3CloudFrontAdapter :: "config \<Rightarrow> StorageAdapter" where
  "S3CloudFrontAdapter cfg =
     \<lparr>type' = S3CloudFront, cdnEnabled = True,
      healthCheck = S3_healthCheck cfg,
      purgeCdnCache = S3_purgeCdnCache cfg\<rparr>"

section \<open>The storage factory\<close>

text \<open>
  Every invocation of an adapter's \<^verbatim>\<open>healthCheck\<close> or \<^verbatim>\<open>purgeCdnCache\<close> is recorded, so
  that what a caller did to the adapter can be stated.
\<close>

datatype call = HealthCheck provider | PurgeCdnCache provider "string list"

fun join_with :: "string \<Rightarrow> string list \<Rightarrow> string" where
  "join_with sep [] = []"
| "join_with sep [x] = x"
| "join_with sep (x # xs) = x @ sep @ join_with sep xs"

definition missingConfig :: "config \<Rightarrow> string list" where
  "missingConfig c = map fst (filter (\<lambda>(k, v). \<not> truthy v) c)"

definition R2_config :: "sys \<Rightarrow> config" where
  "R2_config w =
     [(''accountId'', env w ''CLOUDFLARE_ACCOUNT_ID''),
      (''accessKeyId'', env w ''CLOUDFLARE_R2_ACCESS_KEY_ID''),
      (''secretAccessKey'', env w ''CLOUDFLARE_R2_SECRET_ACCESS_KEY''),
      (''bucketName'', env w ''CLOUDFLARE_R2_BUCKET_NAME''),
      (''cdnDomain'', env w ''CLOUDFLARE_R2_CDN_DOMAIN'')]"

definition createCloudFlareR2Adapter :: "sys \<Rightarrow> (error + StorageAdapter) \<times> call list" where
  "createCloudFlareR2Adapter w =
     (let config = R2_config w;
          missing = missingConfig config
      in if length missing > 0 then
           (Inl (Error (''Missing CloudFlare R2 configuration: '' @ join_with '', '' missing
                        @ ''. Please set the required environment variables.'')), [])
         else
           let adapter = CloudFlareR2Adapter config;
               isHealthy = healthCheck adapter w
           in (if \<not> isHealthy then Inl (Error ''CloudFlare R2 adapter health check failed'')
               else Inr adapter,
               [HealthCheck (type' adapter)]))"

definition S3_config :: "sys \<Rightarrow> config" where
  "S3_config w =
     [(''region'', env w ''AWS_REGION''),
      (''accessKeyId'', env w ''AWS_ACCESS_KEY_ID''),
      (''secretAccessKey'', env w ''AWS_SECRET_ACCESS_KEY''),
      (''bucketName'', env w ''AWS_S3_BUCKET_NAME''),
      (''cloudFrontDomain'', env w ''AWS_CLOUDFRONT_DOMAIN''),
      (''cloudFrontDistributionId'', env w ''AWS_CLOUDFRONT_DISTRIBUTION_ID'')]"

definition S3_requiredConfig :: "config \<Rightarrow> config" where
  "S3_requiredConfig config =
     [(''region'', field config ''region''),
      (''accessKeyId'', field config ''accessKeyId''),
      (''secretAccessKey'', field config ''secretAccessKey''),
      (''bucketName'', field config ''bucketName''),
      (''cloudFrontDomain'', field config ''cloudFrontDomain'')]"

definition createS3CloudFrontAdapter :: "sys \<Rightarrow> (error + StorageAdapter) \<times> call list" where
  "createS3CloudFrontAdapter w =
     (let config = S3_config w;
          missing = missingConfig (S3_requiredConfig config)
      in if length missing > 0 then
           (Inl (Error (''Missing AWS S3/CloudFront configuration: '' @ join_with '', '' missing
                        @ ''. Please set the required environment variables.'')), [])
         else
           let adapter = S3CloudFrontAdapter config;
               isHealthy = healthCheck adapter w
           in (if \<not> isHealthy then Inl (Error ''AWS S3 adapter health check failed'')
               else Inr adapter,
               [HealthCheck (type' adapter)]))"

definition createLocalAdapter :: "sys \<Rightarrow> StorageAdapter" where
  "createLocalAdapter w =
     LocalStorageAdapter_iface
       (new_LocalStorageAdapter w (env w ''UPLOADS_DIR'') (env w ''PUBLIC_DOMAIN''))"

definition getConfiguredProvider :: "sys \<Rightarrow> string" where
  "getConfiguredProvider w =
     (if truthy (env w ''STORAGE_PROVIDER'') then str (env w ''STORAGE_PROVIDER'') else ''local'')"

text \<open>
  \<^verbatim>\<open>createAdapter\<close>: the switch on the provider string inside a try block whose handler
  builds the local adapter.
\<close>

definition createAdapter :: "sys \<Rightarrow> StorageAdapter \<times> call list" where
  "createAdapter w =
     (let provider = (if truthy (env w ''STORAGE_PROVIDER'') then str (env w ''STORAGE_PROVIDER'')
                      else ''local'')
      in if provider = ''cloudflare-r2'' then
           (case createCloudFlareR2Adapter w of
              (Inl e, cs) \<Rightarrow> (createLocalAdapter w, cs)
            | (Inr a, cs) \<Rightarrow> (a, cs))
         else if provider = ''s3-cloudfront'' then
           (case createS3CloudFrontAdapter w of
              (Inl e, cs) \<Rightarrow> (createLocalAdapter w, cs)
            | (Inr a, cs) \<Rightarrow> (a, cs))
         else (createLocalAdapter w, []))"

text \<open>
  The state of the process: the two static fields of \<^verbatim>\<open>StorageFactory\<close>, the promises
  that calls of \<^verbatim>\<open>createAdapter\<close> have returned so far (a promise is named by its position),
  and the record of adapter calls.
\<close>

datatype promise = Pending | Fulfilled StorageAdapter

record runtime =
  instance' :: "StorageAdapter option"
  initializationPromise :: "nat option"
  promises :: "promise list"
  calls :: "call list"

definition fresh :: runtime where
  "fresh = \<lparr>instance' = None, initializationPromise = None, promises = [], calls = []\<rparr>"

definition reset :: "runtime \<Rightarrow> runtime" where
  "reset rt = rt\<lparr>instance' := None, initializationPromise := None\<rparr>"

text \<open>
  \<^verbatim>\<open>getAdapter\<close> runs without interruption from its first line to its \<^verbatim>\<open>await\<close> or to a
  \<^verbatim>\<open>return\<close>. \<open>getAdapter_enter\<close> is that stretch; it ends returned with the cached
  instance, following the promise in flight, or suspended on the promise of the
  construction it has just started.
\<close>

datatype suspended = Returned StorageAdapter | Following nat | Awaiting nat

definition getAdapter_enter :: "runtime \<Rightarrow> suspended \<times> runtime" where
  "getAdapter_enter rt =
     (case instance' rt of
        Some a \<Rightarrow> (Returned a, rt)
      | None \<Rightarrow>
          (case initializationPromise rt of
             Some p \<Rightarrow> (Following p, rt)
           | None \<Rightarrow>
               (let p = length (promises rt)
                in (Awaiting p,
                    rt\<lparr>promises := promises rt @ [Pending],
                       initializationPromise := Some p\<rparr>))))"

text \<open>
  The construction behind promise \<open>p\<close> finishes: the promise is fulfilled with the adapter
  \<^verbatim>\<open>createAdapter\<close> built, and the adapter calls it made are on record.
\<close>

definition settle :: "sys \<Rightarrow> nat \<Rightarrow> runtime \<Rightarrow> runtime" where
  "settle w p rt =
     (if p < length (promises rt) \<and> promises rt ! p = Pending then
        (let (a, cs) = createAdapter w
         in rt\<lparr>promises := (promises rt)[p := Fulfilled a], calls := calls rt @ cs\<rparr>)
      else rt)"

definition promise_value :: "runtime \<Rightarrow> nat \<Rightarrow> StorageAdapter option" where
  "promise_value rt p =
     (if p < length (promises rt) then
        (case promises rt ! p of Pending \<Rightarrow> None | Fulfilled a \<Rightarrow> Some a)
      else None)"

text \<open>
  The caller that started the construction resumes after its \<^verbatim>\<open>await\<close>: it stores the
  instance, clears the promise field and returns the instance.
\<close>

definition getAdapter_resume :: "StorageAdapter \<Rightarrow> runtime \<Rightarrow> StorageAdapter \<times> runtime" where
  "getAdapter_resume a rt =
     (let rt1 = rt\<lparr>instance' := Some a\<rparr>;
          rt2 = rt1\<lparr>initializationPromise := None\<rparr>
      in (a, rt2))"

text \<open>
  One call of \<^verbatim>\<open>getAdapter\<close> awaited to its end with no other task running in between:
  the construction it waits for finishes while it is suspended.
\<close>

definition getAdapter :: "sys \<Rightarrow> runtime \<Rightarrow> (StorageAdapter \<times> runtime) option" where
  "getAdapter w rt =
     (case getAdapter_enter rt of
        (Returned a, rt1) \<Rightarrow> Some (a, rt1)
      | (Following p, rt1) \<Rightarrow>
          (let rt2 = settle w p rt1
           in case promise_value rt2 p of None \<Rightarrow> None | Some a \<Rightarrow> Some (a, rt2))
      | (Awaiting p, rt1) \<Rightarrow>
          (let rt2 = settle w p rt1
           in case promise_value rt2 p of
                None \<Rightarrow> None
              | Some a \<Rightarrow> Some (getAdapter_resume a rt2)))"

section \<open>The CDN service\<close>

record CdnPurgeOptions =
  purgeAll :: "bool option"
  keys :: "string list option"
  courseId :: "string option"
  pattern :: "string option"

record CdnPurgeResult =
  success :: bool
  purgedKeys :: "string list"
  message :: string
  cdnProvider :: "provider option"

text \<open>The decimal text of a number, as a template literal prints it.\<close>

fun decimal :: "nat \<Rightarrow> string" where
  "decimal n =
     (if n < 10 then [char_of (48 + n)]
      else decimal (n div 10) @ [char_of (48 + n mod 10)])"

definition getCourseAssetKeys :: "sys \<Rightarrow> string \<Rightarrow> string list" where
  "getCourseAssetKeys w cid =
     (case getCourse w cid of
        Inl e \<Rightarrow> []
      | Inr None \<Rightarrow> []
      | Inr (Some c) \<Rightarrow>
          if truthy (storageKey c) then [str (storageKey c)]
          else [''courses/'' @ cid @ ''/*''])"

definition getKeysByPattern :: "string \<Rightarrow> string list" where
  "getKeysByPattern pat = [pat]"

text \<open>
  The rest of \<^verbatim>\<open>purgeCache\<close> once \<^verbatim>\<open>keysToPurge\<close> is assigned: the test for an empty
  list, and the purge inside its try block.
\<close>

definition purgeKeys ::
  "sys \<Rightarrow> StorageAdapter \<Rightarrow> string list \<Rightarrow> runtime \<Rightarrow> (error + CdnPurgeResult) \<times> runtime" where
  "purgeKeys w storageAdapter keysToPurge rt =
     (if length keysToPurge = 0 then
        (Inr \<lparr>success = True, purgedKeys = [], message = ''No keys found to purge'',
              cdnProvider = None\<rparr>, rt)
      else
        (try_catch
           (case purgeCdnCache storageAdapter w keysToPurge of
              Inl e \<Rightarrow> Inl e
            | Inr ok_flag \<Rightarrow>
                if ok_flag then
                  Inr \<lparr>success = True, purgedKeys = keysToPurge,
                       message = ''Successfully purged '' @ decimal (length keysToPurge)
                                 @ '' items from CDN cache'',
                       cdnProvider = Some (type' storageAdapter)\<rparr>
                else
                  Inr \<lparr>success = False, purgedKeys = [], message = ''CDN cache purge failed'',
                       cdnProvider = Some (type' storageAdapter)\<rparr>)
           (\<lambda>e. Inr \<lparr>success = False, purgedKeys = [],
                      message = (case e of Error m \<Rightarrow> m
                                | Thrown _ \<Rightarrow> ''Unknown error during cache purge''),
                      cdnProvider = Some (type' storageAdapter)\<rparr>),
         rt\<lparr>calls := calls rt @ [PurgeCdnCache (type' storageAdapter) keysToPurge]\<rparr>))"

text \<open>
  \<^verbatim>\<open>purgeCache\<close>. The result is \<open>None\<close> when the call never completes, \<open>Some (Inl e, _)\<close>
  when it throws and \<open>Some (Inr r, _)\<close> when it returns \<open>r\<close>.
\<close>

definition purgeCache ::
  "sys \<Rightarrow> CdnPurgeOptions \<Rightarrow> runtime \<Rightarrow> ((error + CdnPurgeResult) \<times> runtime) option" where
  "purgeCache w options rt =
     (case getAdapter w rt of
        None \<Rightarrow> None
      | Some (storageAdapter, rt1) \<Rightarrow>
          Some
            (if \<not> cdnEnabled storageAdapter then
               (Inr \<lparr>success = True, purgedKeys = [],
                     message = ''CDN not enabled, no cache to purge'', cdnProvider = None\<rparr>, rt1)
             else if purgeAll options = Some True then
               purgeKeys w storageAdapter [''*''] rt1
             else if truthy (courseId options) then
               purgeKeys w storageAdapter (getCourseAssetKeys w (str (courseId options))) rt1
             else if truthy (pattern options) then
               purgeKeys w storageAdapter (getKeysByPattern (str (pattern options))) rt1
             else
               (case keys options of
                  Some ks \<Rightarrow>
                    if length ks > 0 then purgeKeys w storageAdapter ks rt1
                    else (Inr \<lparr>success = False, purgedKeys = [],
                               message = ''No purge target specified'', cdnProvider = None\<rparr>, rt1)
                | None \<Rightarrow>
                    (Inr \<lparr>success = False, purgedKeys = [],
                          message = ''No purge target specified'', cdnProvider = None\<rparr>, rt1))))"

record CdnStatus =
  enabled :: bool
  provider :: provider
  healthy :: bool

definition getCdnStatus :: "sys \<Rightarrow> runtime \<Rightarrow> (CdnStatus \<times> runtime) option" where
  "getCdnStatus w rt =
     (case getAdapter w rt of
        None \<Rightarrow> None
      | Some (storageAdapter, rt1) \<Rightarrow>
          Some (\<lparr>enabled = cdnEnabled storageAdapter, provider = type' storageAdapter,
                 healthy = healthCheck storageAdapter w\<rparr>,
                rt1\<lparr>calls := calls rt1 @ [HealthCheck (type' storageAdapter)]\<rparr>))"

section \<open>The asset service\<close>

record AssetService =
  storageAdapter :: "StorageAdapter option"

definition new_AssetService :: AssetService where
  "new_AssetService = \<lparr>storageAdapter = None\<rparr>"

definition getStorage ::
  "sys \<Rightarrow> AssetService \<Rightarrow> runtime \<Rightarrow> (StorageAdapter \<times> AssetService \<times> runtime) option" where
  "getStorage w this rt =
     (case storageAdapter this of
        None \<Rightarrow>
          (case getAdapter w rt of
             None \<Rightarrow> None
           | Some (a, rt1) \<Rightarrow> Some (a, this\<lparr>storageAdapter := Some a\<rparr>, rt1))
      | Some a \<Rightarrow> Some (a, this, rt))"

record StorageInfo =
  info_type :: provider
  info_cdnEnabled :: bool
  info_healthy :: bool

definition getStorageInfo ::
  "sys \<Rightarrow> AssetService \<Rightarrow> runtime \<Rightarrow> (StorageInfo \<times> AssetService \<times> runtime) option" where
  "getStorageInfo w this rt =
     (case getStorage w this rt of
        None \<Rightarrow> None
      | Some (storage, this1, rt1) \<Rightarrow>
          Some (\<lparr>info_type = type' storage, info_cdnEnabled = cdnEnabled storage,
                 info_healthy = healthCheck storage w\<rparr>,
                this1,
                rt1\<lparr>calls := calls rt1 @ [HealthCheck (type' storage)]\<rparr>))"

text \<open>\<^verbatim>\<open>AssetService.purgeCdnCache\<close>.\<close>

definition Asset_purgeCdnCache ::
  "sys \<Rightarrow> AssetService \<Rightarrow> string list \<Rightarrow> runtime
     \<Rightarrow> ((error + bool) \<times> AssetService \<times> runtime) option" where
  "Asset_purgeCdnCache w this storageKeys rt =
     (case getStorage w this rt of
        None \<Rightarrow> None
      | Some (storage, this1, rt1) \<Rightarrow>
          Some (if \<not> cdnEnabled storage then (Inr True, this1, rt1)
                else (purgeCdnCache storage w storageKeys, this1,
                      rt1\<lparr>calls := calls rt1 @ [PurgeCdnCache (type' storage) storageKeys]\<rparr>)))"

section \<open>Concurrent callers of the factory\<close>

text \<open>
  The runtime has one thread: a task runs from one \<^verbatim>\<open>await\<close> to the next without
  interruption, and tasks interleave only at these points. A caller of \<^verbatim>\<open>getAdapter\<close> has
  not called yet, is suspended, or has received its adapter. An event is a caller making
  its call, the construction behind a promise finishing, or a suspended caller being
  resumed; an event that is not possible in a state leaves the state as it is.
\<close>

datatype task = Idle | Blocked suspended | Done StorageAdapter

datatype event = Call nat | Settle nat | Resume nat

fun step :: "sys \<Rightarrow> event \<Rightarrow> runtime \<times> task list \<Rightarrow> runtime \<times> task list" where
  "step w (Call i) (rt, ts) =
     (if i < length ts \<and> ts ! i = Idle then
        (case getAdapter_enter rt of
           (Returned a, rt1) \<Rightarrow> (rt1, ts[i := Done a])
         | (Following p, rt1) \<Rightarrow> (rt1, ts[i := Blocked (Following p)])
         | (Awaiting p, rt1) \<Rightarrow> (rt1, ts[i := Blocked (Awaiting p)]))
      else (rt, ts))"
| "step w (Settle p) (rt, ts) = (settle w p rt, ts)"
| "step w (Resume i) (rt, ts) =
     (if i < length ts then
        (case ts ! i of
           Blocked (Following p) \<Rightarrow>
             (case promise_value rt p of
                None \<Rightarrow> (rt, ts)
              | Some a \<Rightarrow> (rt, ts[i := Done a]))
         | Blocked (Awaiting p) \<Rightarrow>
             (case promise_value rt p of
                None \<Rightarrow> (rt, ts)
              | Some a \<Rightarrow> (let (a1, rt1) = getAdapter_resume a rt in (rt1, ts[i := Done a1])))
         | _ \<Rightarrow> (rt, ts))
      else (rt, ts))"

fun run :: "sys \<Rightarrow> event list \<Rightarrow> runtime \<times> task list \<Rightarrow> runtime \<times> task list" where
  "run w [] st = st"
| "run w (e # es) st = run w es (step w e st)"

definition all_done :: "task list \<Rightarrow> bool" where
  "all_done ts = list_all (\<lambda>t. case t of Done _ \<Rightarrow> True | _ \<Rightarrow> False) ts"

definition in_flight :: "runtime \<Rightarrow> nat" where
  "in_flight rt = length (filter (\<lambda>p. p = Pending) (promises rt))"

text \<open>
  The states that callers of \<^verbatim>\<open>getAdapter\<close> can reach from a fresh runtime fall into three
  phases: nothing has been called; one construction is in flight; the one construction
  has finished. A caller is idle, suspended on promise 0, or done with the adapter of
  promise 0.
\<close>

definition tasks_ok :: "StorageAdapter option \<Rightarrow> task list \<Rightarrow> bool" where
  "tasks_ok v ts =
     list_all (\<lambda>t. t = Idle \<or> t = Blocked (Following 0) \<or> t = Blocked (Awaiting 0)
                   \<or> (case v of None \<Rightarrow> False | Some a \<Rightarrow> t = Done a)) ts"

definition phase0 :: "runtime \<Rightarrow> task list \<Rightarrow> bool" where
  "phase0 rt ts =
     (promises rt = [] \<and> instance' rt = None \<and> initializationPromise rt = None
      \<and> calls rt = [] \<and> list_all (\<lambda>t. t = Idle) ts)"

definition phase1 :: "runtime \<Rightarrow> task list \<Rightarrow> bool" where
  "phase1 rt ts =
     (promises rt = [Pending] \<and> instance' rt = None \<and> initializationPromise rt = Some 0
      \<and> calls rt = [] \<and> tasks_ok None ts)"

definition phase2 :: "sys \<Rightarrow> runtime \<Rightarrow> task list \<Rightarrow> bool" where
  "phase2 w rt ts =
     (promises rt = [Fulfilled (fst (createAdapter w))] \<and> calls rt = snd (createAdapter w)
      \<and> ((instance' rt = None \<and> initializationPromise rt = Some 0)
          \<or> (instance' rt = Some (fst (createAdapter w)) \<and> initializationPromise rt = None))
      \<and> tasks_ok (Some (fst (createAdapter w))) ts)"

definition inv :: "sys \<Rightarrow> runtime \<times> task list \<Rightarrow> bool" where
  "inv w st = (phase0 (fst st) (snd st) \<or> phase1 (fst st) (snd st) \<or> phase2 w (fst st) (snd st))"

text \<open>What is left to do: an idle caller counts 3, a suspended one 1, a pending promise 1.\<close>

fun task_weight :: "task \<Rightarrow> nat" where
  "task_weight Idle = 3"
| "task_weight (Blocked _) = 1"
| "task_weight (Done _) = 0"

definition weight :: "runtime \<times> task list \<Rightarrow> nat" where
  "weight st = in_flight (fst st) + sum_list (map task_weight (snd st))"

section \<open>A concrete outside world\<close>

text \<open>
  An outside world with no environment variable set in which every request succeeds; the
  worlds of the examples below are updates of it.
\<close>

definition quiet_sys :: sys where
  "quiet_sys =
     \<lparr>env = Map.empty, cwd = ''/app'',
      getCourse = (\<lambda>_. Inr None),
      local_probe = (\<lambda>_. Inr ()),
      send_HeadBucket = (\<lambda>_. Inr ()),
      send_CreateInvalidation = (\<lambda>_ _. Inr ()),
      fetch_purge_cache = (\<lambda>_ _ _. Inr \<lparr>ok = True, body_text = Inr []\<rparr>)\<rparr>"

text \<open>CloudFlare R2 is selected and only the account identifier is configured.\<close>

definition r2_incomplete_sys :: sys where
  "r2_incomplete_sys =
     quiet_sys\<lparr>env := [''STORAGE_PROVIDER'' \<mapsto> ''cloudflare-r2'',
                       ''CLOUDFLARE_ACCOUNT_ID'' \<mapsto> ''acct'']\<rparr>"

text \<open>The provider string is a misspelt selector.\<close>

definition typo_sys :: sys where
  "typo_sys = quiet_sys\<lparr>env := [''STORAGE_PROVIDER'' \<mapsto> ''cloudfare-r2'']\<rparr>"

text \<open>A local adapter rooted at an absolute directory.\<close>

definition uploads_adapter :: LocalStorageAdapter where
  "uploads_adapter = \<lparr>uploadsDir = ''/srv/uploads/courses'', baseUrl = []\<rparr>"

text \<open>S3 with CloudFront is selected and fully configured.\<close>

definition s3_sys :: sys where
  "s3_sys =
     quiet_sys\<lparr>env := [''STORAGE_PROVIDER'' \<mapsto> ''s3-cloudfront'',
                       ''AWS_REGION'' \<mapsto> ''eu-west-1'',
                       ''AWS_ACCESS_KEY_ID'' \<mapsto> ''id'',
                       ''AWS_SECRET_ACCESS_KEY'' \<mapsto> ''secret'',
                       ''AWS_S3_BUCKET_NAME'' \<mapsto> ''bucket'',
                       ''AWS_CLOUDFRONT_DOMAIN'' \<mapsto> ''cdn.example.com'',
                       ''AWS_CLOUDFRONT_DISTRIBUTION_ID'' \<mapsto> ''DIST'']\<rparr>"

text \<open>An implementation of the interface whose purge throws.\<close>

definition throwing_adapter :: StorageAdapter where
  "throwing_adapter =
     \<lparr>type' = CloudFlareR2, cdnEnabled = True,
      healthCheck = (\<lambda>_. True),
      purgeCdnCache = (\<lambda>_ _. Inl (Error ''connection reset''))\<rparr>"

text \<open>
  An implementation of the interface whose purge throws an error naming the keys it was
  given, so that the result of a purge shows what the adapter received.
\<close>

definition echo_adapter :: StorageAdapter where
  "echo_adapter =
     \<lparr>type' = CloudFlareR2, cdnEnabled = True,
      healthCheck = (\<lambda>_. True),
      purgeCdnCache = (\<lambda>_ ks. Inl (Error (join_with '','' ks)))\<rparr>"

definition only_keys :: "string list \<Rightarrow> CdnPurgeOptions" where
  "only_keys ks = \<lparr>purgeAll = None, keys = Some ks, courseId = None, pattern = None\<rparr>"

text \<open>
  A scenario: an asset service is first used while the local adapter is configured; then
  the factory is reset and initialized again with S3 configured.
\<close>

definition asset_after_first_use :: AssetService where
  "asset_after_first_use = fst (snd (the (getStorage typo_sys new_AssetService fresh)))"

definition runtime_after_reinit :: runtime where
  "runtime_after_reinit =
     snd (the (getAdapter s3_sys
                 (reset (snd (snd (the (getStorage typo_sys new_AssetService fresh)))))))"

section \<open>Properties of key sanitization\<close>

lemma remove_dotdot_other:
  "b \<noteq> CHR ''.'' \<Longrightarrow> remove_dotdot (b # rest) = b # remove_dotdot rest"
  by (cases rest) simp_all

lemma has_dotdot_Cons:
  "has_dotdot (a # s) = ((a = CHR ''.'' \<and> (\<exists>r. s = CHR ''.'' # r)) \<or> has_dotdot s)"
  by (cases s) simp_all

lemma remove_dotdot_clean: "\<not> has_dotdot (remove_dotdot s)"
proof (induction s rule: remove_dotdot.induct)
  case 1
  show ?case by simp
next
  case (2 c)
  show ?case by simp
next
  case (3 a b rest)
  show ?case
  proof (cases "a = CHR ''.'' \<and> b = CHR ''.''")
    case True
    with 3 show ?thesis by simp
  next
    case False
    from False 3 have ih: "\<not> has_dotdot (remove_dotdot (b # rest))" by simp
    show ?thesis
    proof (cases "a = CHR ''.''")
      case True
      with False have "b \<noteq> CHR ''.''" by simp
      then have "remove_dotdot (b # rest) = b # remove_dotdot rest"
        by (rule remove_dotdot_other)
      with ih \<open>b \<noteq> CHR ''.''\<close> False show ?thesis
        by (simp add: has_dotdot_Cons)
    next
      case False
      with ih show ?thesis by (simp add: has_dotdot_Cons)
    qed
  qed
qed

lemma remove_dotdot_id: "\<not> has_dotdot s \<Longrightarrow> remove_dotdot s = s"
  by (induction s rule: remove_dotdot.induct) auto

lemma has_dotdot_dropWhile: "\<not> has_dotdot s \<Longrightarrow> \<not> has_dotdot (dropWhile P s)"
  by (induction s) (auto simp: has_dotdot_Cons)

lemma has_dotdot_append: "has_dotdot (u @ CHR ''.'' # CHR ''.'' # v)"
  by (induction u) (auto simp: has_dotdot_Cons)

lemma has_dotdot_iff: "has_dotdot s \<longleftrightarrow> (\<exists>u v. s = u @ ''..'' @ v)"
proof
  assume "has_dotdot s"
  then show "\<exists>u v. s = u @ ''..'' @ v"
  proof (induction s rule: has_dotdot.induct)
    case (1 a b rest)
    show ?case
    proof (cases "a = CHR ''.'' \<and> b = CHR ''.''")
      case True
      then have "a # b # rest = [] @ ''..'' @ rest" by simp
      then show ?thesis by blast
    next
      case False
      with 1 obtain u v where "b # rest = u @ ''..'' @ v" by auto
      then have "a # b # rest = (a # u) @ ''..'' @ v" by simp
      then show ?thesis by blast
    qed
  qed simp_all
next
  assume "\<exists>u v. s = u @ ''..'' @ v"
  then show "has_dotdot s" using has_dotdot_append by auto
qed

lemma safeKey_clean: "\<not> has_dotdot (safeKey k)"
  unfolding safeKey_def strip_leading_slashes_def
  by (rule has_dotdot_dropWhile) (rule remove_dotdot_clean)

lemma safeKey_no_leading_slash: "safeKey k \<noteq> CHR ''/'' # r"
proof
  assume "safeKey k = CHR ''/'' # r"
  then have eq: "dropWhile (\<lambda>c. c = CHR ''/'') (remove_dotdot k) = CHR ''/'' # r"
    by (simp add: safeKey_def strip_leading_slashes_def)
  then have "dropWhile (\<lambda>c. c = CHR ''/'') (remove_dotdot k) \<noteq> []"
    by simp
  then have "hd (dropWhile (\<lambda>c. c = CHR ''/'') (remove_dotdot k)) \<noteq> CHR ''/''"
    by (rule hd_dropWhile)
  with eq show False by simp
qed

text \<open>
  C2. Sanitizing a key twice gives the same key as sanitizing it once, and for every
  string the sanitized key neither starts with a slash nor contains two adjacent dots.
\<close>

theorem safeKey_idempotent_and_clean:
  "safeKey (safeKey k) = safeKey k
   \<and> (\<nexists>r. safeKey k = CHR ''/'' # r)
   \<and> (\<nexists>u v. safeKey k = u @ ''..'' @ v)"
proof -
  have "remove_dotdot (safeKey k) = safeKey k"
    by (rule remove_dotdot_id) (rule safeKey_clean)
  then have "safeKey (safeKey k) = strip_leading_slashes (safeKey k)"
    by (simp add: safeKey_def)
  also have "\<dots> = safeKey k"
    by (simp add: safeKey_def strip_leading_slashes_def)
  finally have idem: "safeKey (safeKey k) = safeKey k" .
  have clean: "\<nexists>u v. safeKey k = u @ ''..'' @ v"
    using safeKey_clean [of k] has_dotdot_iff [of "safeKey k"] by blast
  from idem safeKey_no_leading_slash clean show ?thesis by blast
qed

section \<open>Paths reached by the local adapter\<close>

lemma join_traversal:
  "path_join [uploadsDir uploads_adapter, ''../../../etc/passwd''] = ''/etc/passwd''"
  unfolding uploads_adapter_def by code_simp

lemma join_sanitized:
  "path_join [uploadsDir uploads_adapter, safeKey ''../../../etc/passwd'']
     = ''/srv/uploads/courses/etc/passwd''"
  unfolding uploads_adapter_def by code_simp

lemma split_slash_nonempty: "split_slash s \<noteq> []"
  by (induction s) (auto split: list.splits)

lemma split_slash_append:
  "split_slash (a @ CHR ''/'' # b) = split_slash a @ split_slash b"
proof (induction a)
  case Nil
  show ?case by simp
next
  case (Cons c a)
  obtain seg segs where s: "split_slash a = seg # segs"
    using split_slash_nonempty [of a] by (cases "split_slash a") auto
  with Cons show ?case by simp
qed

lemma split_slash_head:
  "split_slash s = (d # seg) # segs \<Longrightarrow> \<exists>r. s = d # r"
  by (cases s) (auto split: if_splits list.splits)

lemma no_dotdot_segment: "\<not> has_dotdot s \<Longrightarrow> ''..'' \<notin> set (split_slash s)"
proof (induction s)
  case Nil
  show ?case by simp
next
  case (Cons c cs)
  from Cons.prems have tl: "\<not> has_dotdot cs" by (simp add: has_dotdot_Cons)
  with Cons.IH have ih: "''..'' \<notin> set (split_slash cs)" by simp
  obtain seg segs where s: "split_slash cs = seg # segs"
    using split_slash_nonempty [of cs] by (cases "split_slash cs") auto
  show ?case
  proof (cases "c = CHR ''/''")
    case True
    with ih show ?thesis by simp
  next
    case False
    have "c # seg \<noteq> ''..''"
    proof
      assume e: "c # seg = ''..''"
      then have "split_slash cs = (CHR ''.'' # []) # segs" using s by simp
      from split_slash_head [OF this] obtain r where "cs = CHR ''.'' # r" by blast
      with e Cons.prems show False by (simp add: has_dotdot_Cons)
    qed
    with False ih s show ?thesis by auto
  qed
qed

lemma normalizeString_append:
  "normalizeString ab res (xs @ ys) = normalizeString ab (rev (normalizeString ab res xs)) ys"
  by (cases ab; induction xs arbitrary: res) (simp_all split: list.splits)

lemma normalizeString_plain:
  "''..'' \<notin> set ys \<Longrightarrow>
     normalizeString ab res ys = rev res @ filter (\<lambda>seg. seg \<noteq> [] \<and> seg \<noteq> ''.'') ys"
  by (cases ab; induction ys arbitrary: res) (auto split: list.splits)

text \<open>
  The destination of \<^verbatim>\<open>uploadFile\<close> and \<^verbatim>\<open>uploadBuffer\<close>: for every root and every key, the
  joined path of the root and the sanitized key normalizes to the segments of the root
  followed by the segments of the key, so it lies under the root.
\<close>

lemma upload_destination_under_root:
  assumes "root \<noteq> []"
  shows "path_segments (join_slash (filter (\<lambda>s. s \<noteq> []) [root, safeKey k]))
           = path_segments root
             @ filter (\<lambda>seg. seg \<noteq> [] \<and> seg \<noteq> ''.'') (split_slash (safeKey k))"
proof (cases "safeKey k = []")
  case True
  with assms show ?thesis by simp
next
  case False
  let ?ab = "\<not> isAbsolute root"
  from assms have abs: "isAbsolute (root @ CHR ''/'' # safeKey k) = isAbsolute root"
    by (cases root) (simp_all add: isAbsolute_def)
  have nd: "''..'' \<notin> set (split_slash (safeKey k))"
    by (rule no_dotdot_segment) (rule safeKey_clean)
  from assms False
  have "path_segments (join_slash (filter (\<lambda>s. s \<noteq> []) [root, safeKey k]))
          = normalizeString ?ab [] (split_slash root @ split_slash (safeKey k))"
    by (simp add: path_segments_def abs split_slash_append)
  also have "\<dots> = normalizeString ?ab (rev (path_segments root)) (split_slash (safeKey k))"
    by (simp add: normalizeString_append path_segments_def)
  also have "\<dots> = path_segments root
             @ filter (\<lambda>seg. seg \<noteq> [] \<and> seg \<noteq> ''.'') (split_slash (safeKey k))"
    using nd by (simp add: normalizeString_plain)
  finally show ?thesis .
qed

lemma dirname_sanitized:
  "path_dirname ''/srv/uploads/courses/etc/passwd'' = ''/srv/uploads/courses/etc''"
  by code_simp

lemma chain_root:
  "dir_chain ''/srv/uploads/courses''
     = [''/'', ''/srv'', ''/srv/uploads'', ''/srv/uploads/courses'']"
  by code_simp

lemma chain_sanitized:
  "dir_chain ''/srv/uploads/courses/etc''
     = [''/'', ''/srv'', ''/srv/uploads'', ''/srv/uploads/courses'',
        ''/srv/uploads/courses/etc'']"
  by code_simp

lemma upload_traversal_key:
  "uploadBuffer uploads_adapter 0 ''x'' ''../../../etc/passwd''
       \<lparr>regular = Map.empty, directories = {}\<rparr>
     = Inr (\<lparr>key = ''etc/passwd'', url = ''/uploads/courses/etc/passwd'', size' = 1,
             etag = (0, 1)\<rparr>,
            \<lparr>regular = [''/srv/uploads/courses/etc/passwd'' \<mapsto> ''x''],
             directories = {''/'', ''/srv'', ''/srv/uploads'', ''/srv/uploads/courses'',
                            ''/srv/uploads/courses/etc''}\<rparr>)"
proof -
  have c: "safeKey ''../../../etc/passwd'' = ''etc/passwd''"
    by code_simp
  have j: "path_join [''/srv/uploads/courses'', ''etc/passwd'']
             = ''/srv/uploads/courses/etc/passwd''"
    by code_simp
  have m1: "mkdir_recursive ''/srv/uploads/courses'' \<lparr>regular = Map.empty, directories = {}\<rparr>
      = Inr \<lparr>regular = Map.empty,
            directories = {''/'', ''/srv'', ''/srv/uploads'', ''/srv/uploads/courses''}\<rparr>"
    by (simp add: mkdir_recursive_def chain_root)
  have m2: "mkdir_recursive ''/srv/uploads/courses/etc''
        \<lparr>regular = Map.empty,
         directories = {''/'', ''/srv'', ''/srv/uploads'', ''/srv/uploads/courses''}\<rparr>
      = Inr \<lparr>regular = Map.empty,
            directories = {''/'', ''/srv'', ''/srv/uploads'', ''/srv/uploads/courses'',
                           ''/srv/uploads/courses/etc''}\<rparr>"
    by (auto simp: mkdir_recursive_def chain_sanitized)
  have w: "writeFile ''/srv/uploads/courses/etc/passwd'' ''x''
        \<lparr>regular = Map.empty,
         directories = {''/'', ''/srv'', ''/srv/uploads'', ''/srv/uploads/courses'',
                        ''/srv/uploads/courses/etc''}\<rparr>
      = Inr \<lparr>regular = [''/srv/uploads/courses/etc/passwd'' \<mapsto> ''x''],
            directories = {''/'', ''/srv'', ''/srv/uploads'', ''/srv/uploads/courses'',
                           ''/srv/uploads/courses/etc''}\<rparr>"
    by (simp add: writeFile_def)
  show ?thesis
    by (simp add: uploadBuffer_def ensureDirectory_def uploads_adapter_def c j m1
        dirname_sanitized m2 w getPublicUrl_def Let_def)
qed

text \<open>
  A key that sanitizes to the empty string names the root itself: the write throws and the
  file system keeps no file.
\<close>

lemma upload_empty_key:
  "uploadBuffer uploads_adapter 0 ''x'' ''..'' \<lparr>regular = Map.empty, directories = {}\<rparr>
     = Inl (Error ''EISDIR'')"
proof -
  have c: "safeKey ''..'' = []"
    by code_simp
  have j: "path_join [''/srv/uploads/courses'', []] = ''/srv/uploads/courses''"
    by code_simp
  have d: "path_dirname ''/srv/uploads/courses'' = ''/srv/uploads''"
    by code_simp
  have ch: "dir_chain ''/srv/uploads'' = [''/'', ''/srv'', ''/srv/uploads'']"
    by code_simp
  have m1: "mkdir_recursive ''/srv/uploads/courses'' \<lparr>regular = Map.empty, directories = {}\<rparr>
      = Inr \<lparr>regular = Map.empty,
            directories = {''/'', ''/srv'', ''/srv/uploads'', ''/srv/uploads/courses''}\<rparr>"
    by (simp add: mkdir_recursive_def chain_root)
  have m2: "mkdir_recursive ''/srv/uploads''
        \<lparr>regular = Map.empty,
         directories = {''/'', ''/srv'', ''/srv/uploads'', ''/srv/uploads/courses''}\<rparr>
      = Inr \<lparr>regular = Map.empty,
            directories = {''/'', ''/srv'', ''/srv/uploads'', ''/srv/uploads/courses''}\<rparr>"
    by (auto simp: mkdir_recursive_def ch)
  have w: "writeFile ''/srv/uploads/courses'' ''x''
        \<lparr>regular = Map.empty,
         directories = {''/'', ''/srv'', ''/srv/uploads'', ''/srv/uploads/courses''}\<rparr>
      = Inl (Error ''EISDIR'')"
    by (simp add: writeFile_def)
  show ?thesis
    by (simp add: uploadBuffer_def ensureDirectory_def uploads_adapter_def c j m1 d m2 w
        Let_def)
qed

text \<open>
  C1. \<^verbatim>\<open>deleteFile\<close> joins its key to the root without sanitizing it. With the root
  \<^verbatim>\<open>/srv/uploads/courses\<close> and the key \<^verbatim>\<open>../../../etc/passwd\<close> it unlinks \<^verbatim>\<open>/etc/passwd\<close>, a
  path that is not under the root, and reports success; \<^verbatim>\<open>uploadBuffer\<close> with the same key
  returns the key \<^verbatim>\<open>etc/passwd\<close> and writes to \<^verbatim>\<open>/srv/uploads/courses/etc/passwd\<close>, under
  the root.
\<close>

theorem deleteFile_leaves_root:
  "path_join [uploadsDir uploads_adapter, ''../../../etc/passwd''] = ''/etc/passwd''
   \<and> \<not> under_root (uploadsDir uploads_adapter) ''/etc/passwd''
   \<and> deleteFile uploads_adapter ''../../../etc/passwd'' [''/etc/passwd'' \<mapsto> ''secret'']
       = (True, Map.empty)
   \<and> uploadBuffer uploads_adapter 0 ''x'' ''../../../etc/passwd''
         \<lparr>regular = Map.empty, directories = {}\<rparr>
       = Inr (\<lparr>key = ''etc/passwd'', url = ''/uploads/courses/etc/passwd'', size' = 1,
               etag = (0, 1)\<rparr>,
              \<lparr>regular = [''/srv/uploads/courses/etc/passwd'' \<mapsto> ''x''],
               directories = {''/'', ''/srv'', ''/srv/uploads'', ''/srv/uploads/courses'',
                              ''/srv/uploads/courses/etc''}\<rparr>)
   \<and> under_root (uploadsDir uploads_adapter) ''/srv/uploads/courses/etc/passwd''"
proof -
  have a: "\<not> under_root (uploadsDir uploads_adapter) ''/etc/passwd''"
    unfolding uploads_adapter_def by code_simp
  have b: "deleteFile uploads_adapter ''../../../etc/passwd'' [''/etc/passwd'' \<mapsto> ''secret'']
             = (True, Map.empty)"
    by (simp add: deleteFile_def join_traversal)
  have f: "under_root (uploadsDir uploads_adapter) ''/srv/uploads/courses/etc/passwd''"
    unfolding uploads_adapter_def by code_simp
  from join_traversal a b upload_traversal_key f show ?thesis by blast
qed

section \<open>Properties of the storage factory\<close>

lemma getAdapter_cached: "instance' rt = Some a \<Longrightarrow> getAdapter w rt = Some (a, rt)"
  by (simp add: getAdapter_def getAdapter_enter_def)

lemma getAdapter_first:
  assumes "instance' rt = None" and "initializationPromise rt = None"
  shows "getAdapter w rt =
           Some (fst (createAdapter w),
                 rt\<lparr>instance' := Some (fst (createAdapter w)),
                    initializationPromise := None,
                    promises := promises rt @ [Fulfilled (fst (createAdapter w))],
                    calls := calls rt @ snd (createAdapter w)\<rparr>)"
  using assms
  by (simp add: getAdapter_def getAdapter_enter_def settle_def promise_value_def
      getAdapter_resume_def Let_def split: prod.splits)

lemma createLocalAdapter_type:
  "type' (createLocalAdapter w) = Local \<and> \<not> cdnEnabled (createLocalAdapter w)"
  by (simp add: createLocalAdapter_def LocalStorageAdapter_iface_def)

lemma createAdapter_default:
  assumes "env w ''STORAGE_PROVIDER'' \<noteq> Some ''cloudflare-r2''"
    and "env w ''STORAGE_PROVIDER'' \<noteq> Some ''s3-cloudfront''"
  shows "createAdapter w = (createLocalAdapter w, [])"
  using assms
  by (cases "env w ''STORAGE_PROVIDER''") (simp_all add: createAdapter_def truthy_def str_def)

lemma createLocalAdapter_env:
  "createLocalAdapter (w\<lparr>env := (env w)(''STORAGE_PROVIDER'' := v)\<rparr>) = createLocalAdapter w"
  by (simp add: createLocalAdapter_def new_LocalStorageAdapter_def Local_healthCheck_def
       LocalStorageAdapter_iface_def Local_purgeCdnCache_def fun_eq_iff)

lemma missingConfig_iff:
  "k \<in> set (missingConfig c) \<longleftrightarrow> (\<exists>v. (k, v) \<in> set c \<and> \<not> truthy v)"
  by (force simp: missingConfig_def)

lemma createAdapter_R2_missing:
  assumes "env w ''STORAGE_PROVIDER'' = Some ''cloudflare-r2''"
    and "missingConfig (R2_config w) \<noteq> []"
  shows "createAdapter w = (createLocalAdapter w, [])"
    and "createCloudFlareR2Adapter w =
          (Inl (Error (''Missing CloudFlare R2 configuration: ''
                       @ join_with '', '' (missingConfig (R2_config w))
                       @ ''. Please set the required environment variables.'')), [])"
  using assms
  by (simp_all add: createAdapter_def createCloudFlareR2Adapter_def truthy_def str_def Let_def)

lemma S3_requiredConfig_unfold:
  "S3_requiredConfig (S3_config w) =
     [(''region'', env w ''AWS_REGION''),
      (''accessKeyId'', env w ''AWS_ACCESS_KEY_ID''),
      (''secretAccessKey'', env w ''AWS_SECRET_ACCESS_KEY''),
      (''bucketName'', env w ''AWS_S3_BUCKET_NAME''),
      (''cloudFrontDomain'', env w ''AWS_CLOUDFRONT_DOMAIN'')]"
  by (simp add: S3_requiredConfig_def S3_config_def field_def)

lemma createAdapter_S3_missing:
  assumes "env w ''STORAGE_PROVIDER'' = Some ''s3-cloudfront''"
    and "missingConfig (S3_requiredConfig (S3_config w)) \<noteq> []"
  shows "createAdapter w = (createLocalAdapter w, [])"
    and "createS3CloudFrontAdapter w =
          (Inl (Error (''Missing AWS S3/CloudFront configuration: ''
                       @ join_with '', '' (missingConfig (S3_requiredConfig (S3_config w)))
                       @ ''. Please set the required environment variables.'')), [])"
  using assms
  by (simp_all add: createAdapter_def createS3CloudFrontAdapter_def truthy_def str_def Let_def)

text \<open>
  C4. On the first call of \<^verbatim>\<open>getAdapter\<close>, when \<^verbatim>\<open>STORAGE_PROVIDER\<close> selects one of the two
  CDN adapters and a required variable of that adapter is unset or empty, the call returns
  an adapter of type local and no adapter method has been invoked (so no request left the
  process). The construction of the CDN adapter threw the error whose message lists the
  names of the missing fields, and a name is listed exactly when its value is missing.
\<close>

theorem missing_config_falls_back_to_local:
  assumes "instance' rt = None" and "initializationPromise rt = None"
    and "(env w ''STORAGE_PROVIDER'' = Some ''cloudflare-r2''
          \<and> \<not> (truthy (env w ''CLOUDFLARE_ACCOUNT_ID'')
                 \<and> truthy (env w ''CLOUDFLARE_R2_ACCESS_KEY_ID'')
                 \<and> truthy (env w ''CLOUDFLARE_R2_SECRET_ACCESS_KEY'')
                 \<and> truthy (env w ''CLOUDFLARE_R2_BUCKET_NAME'')
                 \<and> truthy (env w ''CLOUDFLARE_R2_CDN_DOMAIN'')))
         \<or> (env w ''STORAGE_PROVIDER'' = Some ''s3-cloudfront''
          \<and> \<not> (truthy (env w ''AWS_REGION'')
                 \<and> truthy (env w ''AWS_ACCESS_KEY_ID'')
                 \<and> truthy (env w ''AWS_SECRET_ACCESS_KEY'')
                 \<and> truthy (env w ''AWS_S3_BUCKET_NAME'')
                 \<and> truthy (env w ''AWS_CLOUDFRONT_DOMAIN'')))"
  shows "(\<exists>a rt'. getAdapter w rt = Some (a, rt') \<and> type' a = Local \<and> calls rt' = calls rt)
         \<and> (env w ''STORAGE_PROVIDER'' = Some ''cloudflare-r2'' \<longrightarrow>
              createCloudFlareR2Adapter w =
                (Inl (Error (''Missing CloudFlare R2 configuration: ''
                             @ join_with '', '' (missingConfig (R2_config w))
                             @ ''. Please set the required environment variables.'')), [])
              \<and> (\<forall>k. k \<in> set (missingConfig (R2_config w))
                       \<longleftrightarrow> (\<exists>v. (k, v) \<in> set (R2_config w) \<and> \<not> truthy v)))
         \<and> (env w ''STORAGE_PROVIDER'' = Some ''s3-cloudfront'' \<longrightarrow>
              createS3CloudFrontAdapter w =
                (Inl (Error (''Missing AWS S3/CloudFront configuration: ''
                             @ join_with '', '' (missingConfig (S3_requiredConfig (S3_config w)))
                             @ ''. Please set the required environment variables.'')), [])
              \<and> (\<forall>k. k \<in> set (missingConfig (S3_requiredConfig (S3_config w)))
                       \<longleftrightarrow> (\<exists>v. (k, v) \<in> set (S3_requiredConfig (S3_config w))
                                \<and> \<not> truthy v)))"
proof -
  from assms(3) show ?thesis
  proof (elim disjE conjE)
    assume p: "env w ''STORAGE_PROVIDER'' = Some ''cloudflare-r2''"
      and m: "\<not> (truthy (env w ''CLOUDFLARE_ACCOUNT_ID'')
                 \<and> truthy (env w ''CLOUDFLARE_R2_ACCESS_KEY_ID'')
                 \<and> truthy (env w ''CLOUDFLARE_R2_SECRET_ACCESS_KEY'')
                 \<and> truthy (env w ''CLOUDFLARE_R2_BUCKET_NAME'')
                 \<and> truthy (env w ''CLOUDFLARE_R2_CDN_DOMAIN''))"
    from m have ne: "missingConfig (R2_config w) \<noteq> []"
      by (auto simp: R2_config_def missingConfig_def)
    from createAdapter_R2_missing [OF p ne] getAdapter_first [OF assms(1,2), of w]
      createLocalAdapter_type [of w] p missingConfig_iff [of _ "R2_config w"]
    show ?thesis by simp
  next
    assume p: "env w ''STORAGE_PROVIDER'' = Some ''s3-cloudfront''"
      and m: "\<not> (truthy (env w ''AWS_REGION'')
                 \<and> truthy (env w ''AWS_ACCESS_KEY_ID'')
                 \<and> truthy (env w ''AWS_SECRET_ACCESS_KEY'')
                 \<and> truthy (env w ''AWS_S3_BUCKET_NAME'')
                 \<and> truthy (env w ''AWS_CLOUDFRONT_DOMAIN''))"
    from m have ne: "missingConfig (S3_requiredConfig (S3_config w)) \<noteq> []"
      by (auto simp: S3_requiredConfig_unfold missingConfig_def)
    from createAdapter_S3_missing [OF p ne] getAdapter_first [OF assms(1,2), of w]
      createLocalAdapter_type [of w] p missingConfig_iff [of _ "S3_requiredConfig (S3_config w)"]
    show ?thesis by simp
  qed
qed

text \<open>
  An instance of C4: CloudFlare R2 is selected and only the account identifier is set.
\<close>

theorem missing_config_falls_back_to_local_witness:
  "type' (fst (the (getAdapter r2_incomplete_sys fresh))) = Local
   \<and> createCloudFlareR2Adapter r2_incomplete_sys
     = (Inl (Error (''Missing CloudFlare R2 configuration: accessKeyId, secretAccessKey, ''
                    @ ''bucketName, cdnDomain. Please set the required environment variables.'')),
        [])"
proof -
  have h1: "instance' fresh = None" and h2: "initializationPromise fresh = None"
    by (simp_all add: fresh_def)
  have p: "env r2_incomplete_sys ''STORAGE_PROVIDER'' = Some ''cloudflare-r2''"
    by (simp add: r2_incomplete_sys_def quiet_sys_def)
  have m: "\<not> truthy (env r2_incomplete_sys ''CLOUDFLARE_R2_BUCKET_NAME'')"
    by (simp add: r2_incomplete_sys_def quiet_sys_def truthy_def)
  note base = missing_config_falls_back_to_local [of fresh r2_incomplete_sys, OF h1 h2]
  from p m have fact: "(\<exists>a rt'. getAdapter r2_incomplete_sys fresh = Some (a, rt')
                   \<and> type' a = Local \<and> calls rt' = calls fresh)
     \<and> createCloudFlareR2Adapter r2_incomplete_sys =
                (Inl (Error (''Missing CloudFlare R2 configuration: ''
                             @ join_with '', '' (missingConfig (R2_config r2_incomplete_sys))
                             @ ''. Please set the required environment variables.'')), [])"
    using base by blast
  have names: "missingConfig (R2_config r2_incomplete_sys)
                 = [''accessKeyId'', ''secretAccessKey'', ''bucketName'', ''cdnDomain'']"
    by (simp add: R2_config_def missingConfig_def truthy_def r2_incomplete_sys_def quiet_sys_def)
  from fact obtain a rt' where "getAdapter r2_incomplete_sys fresh = Some (a, rt')"
    and "type' a = Local" by blast
  then have "type' (fst (the (getAdapter r2_incomplete_sys fresh))) = Local" by simp
  moreover from fact names have "createCloudFlareR2Adapter r2_incomplete_sys
     = (Inl (Error (''Missing CloudFlare R2 configuration: accessKeyId, secretAccessKey, ''
                    @ ''bucketName, cdnDomain. Please set the required environment variables.'')),
        [])" by simp
  ultimately show ?thesis by simp
qed

text \<open>
  C10. On the first call of \<^verbatim>\<open>getAdapter\<close>, when \<^verbatim>\<open>STORAGE_PROVIDER\<close> is unset or is any
  string other than the two CDN selectors, the call returns the local adapter, no adapter
  method has been invoked, and the construction is the one made for the value
  \<^verbatim>\<open>local\<close>.
\<close>

theorem unrecognized_provider_builds_local:
  assumes "env w ''STORAGE_PROVIDER'' \<noteq> Some ''cloudflare-r2''"
    and "env w ''STORAGE_PROVIDER'' \<noteq> Some ''s3-cloudfront''"
    and "instance' rt = None" and "initializationPromise rt = None"
  shows "\<exists>rt'. getAdapter w rt = Some (createLocalAdapter w, rt')
               \<and> type' (createLocalAdapter w) = Local
               \<and> calls rt' = calls rt
               \<and> createAdapter w = (createLocalAdapter w, [])
               \<and> createAdapter w
                   = createAdapter (w\<lparr>env := (env w)(''STORAGE_PROVIDER'' \<mapsto> ''local'')\<rparr>)"
proof -
  let ?w' = "w\<lparr>env := (env w)(''STORAGE_PROVIDER'' \<mapsto> ''local'')\<rparr>"
  have c: "createAdapter w = (createLocalAdapter w, [])"
    using assms(1,2) by (rule createAdapter_default)
  have "createAdapter ?w' = (createLocalAdapter ?w', [])"
    by (rule createAdapter_default) simp_all
  then have same: "createAdapter w = createAdapter ?w'"
    using c by (simp add: createLocalAdapter_env)
  from getAdapter_first [OF assms(3,4), of w] c same createLocalAdapter_type [of w]
  show ?thesis by simp
qed

text \<open>An instance of C10: the provider string is a misspelt selector.\<close>

theorem unrecognized_provider_builds_local_witness:
  "type' (fst (the (getAdapter typo_sys fresh))) = Local
   \<and> calls (snd (the (getAdapter typo_sys fresh))) = []"
proof -
  have h1: "env typo_sys ''STORAGE_PROVIDER'' \<noteq> Some ''cloudflare-r2''"
    and h2: "env typo_sys ''STORAGE_PROVIDER'' \<noteq> Some ''s3-cloudfront''"
    by (simp_all add: typo_sys_def quiet_sys_def)
  have h3: "instance' fresh = None" and h4: "initializationPromise fresh = None"
    by (simp_all add: fresh_def)
  from unrecognized_provider_builds_local [OF h1 h2 h3 h4]
  obtain rt' where "getAdapter typo_sys fresh = Some (createLocalAdapter typo_sys, rt')"
    and "type' (createLocalAdapter typo_sys) = Local" and "calls rt' = calls fresh"
    by blast
  then show ?thesis by (simp add: fresh_def)
qed

section \<open>Properties of the CDN service\<close>

lemma purgeKeys_empty:
  "purgeKeys w a [] rt =
     (Inr \<lparr>success = True, purgedKeys = [], message = ''No keys found to purge'',
           cdnProvider = None\<rparr>, rt)"
  by (simp add: purgeKeys_def)

lemma purgeKeys_calls:
  "ks \<noteq> [] \<Longrightarrow> snd (purgeKeys w a ks rt) = rt\<lparr>calls := calls rt @ [PurgeCdnCache (type' a) ks]\<rparr>"
  by (simp add: purgeKeys_def)

lemma purgeKeys_returns: "\<exists>r. fst (purgeKeys w a ks rt) = Inr r"
  by (cases "purgeCdnCache a w ks") (simp_all add: purgeKeys_def try_catch_def)

lemma purgeKeys_caught:
  "ks \<noteq> [] \<Longrightarrow> purgeCdnCache a w ks = Inl e \<Longrightarrow>
     fst (purgeKeys w a ks rt) =
       Inr \<lparr>success = False, purgedKeys = [], message = (case e of Error m \<Rightarrow> m
                                | Thrown _ \<Rightarrow> ''Unknown error during cache purge''),
            cdnProvider = Some (type' a)\<rparr>"
  by (simp add: purgeKeys_def try_catch_def)

lemma createAdapter_s3_sys:
  "createAdapter s3_sys = (S3CloudFrontAdapter (S3_config s3_sys), [HealthCheck S3CloudFront])"
  by (simp add: createAdapter_def createS3CloudFrontAdapter_def S3_requiredConfig_unfold
      missingConfig_def truthy_def str_def s3_sys_def quiet_sys_def S3CloudFrontAdapter_def
      S3_healthCheck_def Let_def)

lemma getAdapter_s3_sys:
  "getAdapter s3_sys fresh =
     Some (S3CloudFrontAdapter (S3_config s3_sys),
           \<lparr>instance' = Some (S3CloudFrontAdapter (S3_config s3_sys)),
            initializationPromise = None,
            promises = [Fulfilled (S3CloudFrontAdapter (S3_config s3_sys))],
            calls = [HealthCheck S3CloudFront]\<rparr>)"
proof -
  have "instance' fresh = None" and "initializationPromise fresh = None"
    by (simp_all add: fresh_def)
  from getAdapter_first [OF this, of s3_sys] show ?thesis
    by (simp add: createAdapter_s3_sys fresh_def)
qed

text \<open>
  C6. When the adapter the factory hands out is not CDN-enabled, as the local adapter is,
  \<^verbatim>\<open>purgeCache\<close> returns the successful result with no purged keys whatever the request
  holds, and the record of adapter calls is the one \<^verbatim>\<open>getAdapter\<close> left: the adapter's
  \<^verbatim>\<open>purgeCdnCache\<close> is not invoked.
\<close>

theorem purgeCache_without_cdn:
  assumes "getAdapter w rt = Some (a, rt1)" and "\<not> cdnEnabled a"
  shows "purgeCache w options rt =
           Some (Inr \<lparr>success = True, purgedKeys = [],
                      message = ''CDN not enabled, no cache to purge'', cdnProvider = None\<rparr>,
                 rt1)"
  using assms by (simp add: purgeCache_def)

text \<open>An instance of C6: the local adapter built for a misspelt provider, asked to purge all.\<close>

theorem purgeCache_without_cdn_witness:
  "fst (the (purgeCache typo_sys
               \<lparr>purgeAll = Some True, keys = Some [''a''], courseId = None, pattern = None\<rparr>
               fresh))
     = Inr \<lparr>success = True, purgedKeys = [],
            message = ''CDN not enabled, no cache to purge'', cdnProvider = None\<rparr>
   \<and> calls (snd (the (purgeCache typo_sys
               \<lparr>purgeAll = Some True, keys = Some [''a''], courseId = None, pattern = None\<rparr>
               fresh))) = []"
proof -
  have h1: "env typo_sys ''STORAGE_PROVIDER'' \<noteq> Some ''cloudflare-r2''"
    and h2: "env typo_sys ''STORAGE_PROVIDER'' \<noteq> Some ''s3-cloudfront''"
    by (simp_all add: typo_sys_def quiet_sys_def)
  have c: "createAdapter typo_sys = (createLocalAdapter typo_sys, [])"
    using h1 h2 by (rule createAdapter_default)
  have "instance' fresh = None" and "initializationPromise fresh = None"
    by (simp_all add: fresh_def)
  from getAdapter_first [OF this, of typo_sys]
  have g: "getAdapter typo_sys fresh =
             Some (createLocalAdapter typo_sys,
                   fresh\<lparr>instance' := Some (createLocalAdapter typo_sys),
                         initializationPromise := None,
                         promises := promises fresh @ [Fulfilled (createLocalAdapter typo_sys)],
                         calls := calls fresh @ []\<rparr>)"
    by (simp add: c)
  have n: "\<not> cdnEnabled (createLocalAdapter typo_sys)"
    using createLocalAdapter_type by blast
  from purgeCache_without_cdn [OF g n] show ?thesis
    by (simp add: fresh_def)
qed

lemma purgeKeys_nonempty:
  "kl \<noteq> [] \<Longrightarrow>
     purgeKeys w a kl rt =
       (case purgeCdnCache a w kl of
          Inl e \<Rightarrow>
            Inr \<lparr>success = False, purgedKeys = [],
                 message = (case e of Error m \<Rightarrow> m
                            | Thrown _ \<Rightarrow> ''Unknown error during cache purge''),
                 cdnProvider = Some (type' a)\<rparr>
        | Inr ok_flag \<Rightarrow>
            if ok_flag then
              Inr \<lparr>success = True, purgedKeys = kl,
                   message = ''Successfully purged '' @ decimal (length kl)
                             @ '' items from CDN cache'',
                   cdnProvider = Some (type' a)\<rparr>
            else
              Inr \<lparr>success = False, purgedKeys = [], message = ''CDN cache purge failed'',
                   cdnProvider = Some (type' a)\<rparr>,
        rt\<lparr>calls := calls rt @ [PurgeCdnCache (type' a) kl]\<rparr>)"
  by (simp add: purgeKeys_def try_catch_def split: sum.splits)

text \<open>
  C5. \<^verbatim>\<open>purgeCache\<close> honours one strategy, chosen in the order purge-all flag, course
  identifier, pattern, explicit key list, and the adapter's \<^verbatim>\<open>purgeCdnCache\<close> is invoked
  only on a CDN-enabled adapter. The whole outcome of \<^verbatim>\<open>purgeCache\<close> is that of the purge of
  one key list: the wildcard when the flag is set, whatever else the request holds; the
  keys derived from the course without the flag and with a course identifier; the pattern
  without flag and identifier and with a pattern; exactly the given list when only a
  non-empty key list is given. The purge of a non-empty key list applies the adapter's
  \<^verbatim>\<open>purgeCdnCache\<close> to that list, once, and its result is built from what that call returns
  or throws; the purge of an empty list does not invoke the adapter.
\<close>

theorem purgeCache_precedence:
  assumes "getAdapter w rt = Some (a, rt1)"
  shows "(purgeAll options = Some True \<longrightarrow>
            purgeCache w options rt =
              Some (if cdnEnabled a then purgeKeys w a [''*''] rt1
                    else (Inr \<lparr>success = True, purgedKeys = [],
                               message = ''CDN not enabled, no cache to purge'',
                               cdnProvider = None\<rparr>, rt1)))
       \<and> (purgeAll options \<noteq> Some True \<and> truthy (courseId options) \<longrightarrow>
            purgeCache w options rt =
              Some (if cdnEnabled a
                    then purgeKeys w a (getCourseAssetKeys w (str (courseId options))) rt1
                    else (Inr \<lparr>success = True, purgedKeys = [],
                               message = ''CDN not enabled, no cache to purge'',
                               cdnProvider = None\<rparr>, rt1)))
       \<and> (purgeAll options \<noteq> Some True \<and> \<not> truthy (courseId options)
            \<and> truthy (pattern options) \<longrightarrow>
            purgeCache w options rt =
              Some (if cdnEnabled a then purgeKeys w a [str (pattern options)] rt1
                    else (Inr \<lparr>success = True, purgedKeys = [],
                               message = ''CDN not enabled, no cache to purge'',
                               cdnProvider = None\<rparr>, rt1)))
       \<and> (purgeAll options \<noteq> Some True \<and> \<not> truthy (courseId options)
            \<and> \<not> truthy (pattern options) \<and> keys options = Some ks \<and> ks \<noteq> [] \<longrightarrow>
            purgeCache w options rt =
              Some (if cdnEnabled a then purgeKeys w a ks rt1
                    else (Inr \<lparr>success = True, purgedKeys = [],
                               message = ''CDN not enabled, no cache to purge'',
                               cdnProvider = None\<rparr>, rt1)))
       \<and> (kl \<noteq> [] \<longrightarrow>
            purgeKeys w a kl rt1 =
              (case purgeCdnCache a w kl of
                 Inl e \<Rightarrow>
                   Inr \<lparr>success = False, purgedKeys = [],
                        message = (case e of Error m \<Rightarrow> m
                                   | Thrown _ \<Rightarrow> ''Unknown error during cache purge''),
                        cdnProvider = Some (type' a)\<rparr>
               | Inr ok_flag \<Rightarrow>
                   if ok_flag then
                     Inr \<lparr>success = True, purgedKeys = kl,
                          message = ''Successfully purged '' @ decimal (length kl)
                                    @ '' items from CDN cache'',
                          cdnProvider = Some (type' a)\<rparr>
                   else
                     Inr \<lparr>success = False, purgedKeys = [],
                          message = ''CDN cache purge failed'',
                          cdnProvider = Some (type' a)\<rparr>,
               rt1\<lparr>calls := calls rt1 @ [PurgeCdnCache (type' a) kl]\<rparr>))
       \<and> purgeKeys w a [] rt1 =
            (Inr \<lparr>success = True, purgedKeys = [], message = ''No keys found to purge'',
                  cdnProvider = None\<rparr>, rt1)"
proof (intro conjI impI)
  assume "purgeAll options = Some True"
  with assms show "purgeCache w options rt =
              Some (if cdnEnabled a then purgeKeys w a [''*''] rt1
                    else (Inr \<lparr>success = True, purgedKeys = [],
                               message = ''CDN not enabled, no cache to purge'',
                               cdnProvider = None\<rparr>, rt1))"
    by (simp add: purgeCache_def)
next
  assume "purgeAll options \<noteq> Some True \<and> truthy (courseId options)"
  with assms show "purgeCache w options rt =
              Some (if cdnEnabled a
                    then purgeKeys w a (getCourseAssetKeys w (str (courseId options))) rt1
                    else (Inr \<lparr>success = True, purgedKeys = [],
                               message = ''CDN not enabled, no cache to purge'',
                               cdnProvider = None\<rparr>, rt1))"
    by (simp add: purgeCache_def)
next
  assume "purgeAll options \<noteq> Some True \<and> \<not> truthy (courseId options)
            \<and> truthy (pattern options)"
  with assms show "purgeCache w options rt =
              Some (if cdnEnabled a then purgeKeys w a [str (pattern options)] rt1
                    else (Inr \<lparr>success = True, purgedKeys = [],
                               message = ''CDN not enabled, no cache to purge'',
                               cdnProvider = None\<rparr>, rt1))"
    by (simp add: purgeCache_def getKeysByPattern_def)
next
  assume "purgeAll options \<noteq> Some True \<and> \<not> truthy (courseId options)
            \<and> \<not> truthy (pattern options) \<and> keys options = Some ks \<and> ks \<noteq> []"
  with assms show "purgeCache w options rt =
              Some (if cdnEnabled a then purgeKeys w a ks rt1
                    else (Inr \<lparr>success = True, purgedKeys = [],
                               message = ''CDN not enabled, no cache to purge'',
                               cdnProvider = None\<rparr>, rt1))"
    by (simp add: purgeCache_def)
next
  assume "kl \<noteq> []"
  then show "purgeKeys w a kl rt1 =
              (case purgeCdnCache a w kl of
                 Inl e \<Rightarrow>
                   Inr \<lparr>success = False, purgedKeys = [],
                        message = (case e of Error m \<Rightarrow> m
                                   | Thrown _ \<Rightarrow> ''Unknown error during cache purge''),
                        cdnProvider = Some (type' a)\<rparr>
               | Inr ok_flag \<Rightarrow>
                   if ok_flag then
                     Inr \<lparr>success = True, purgedKeys = kl,
                          message = ''Successfully purged '' @ decimal (length kl)
                                    @ '' items from CDN cache'',
                          cdnProvider = Some (type' a)\<rparr>
                   else
                     Inr \<lparr>success = False, purgedKeys = [],
                          message = ''CDN cache purge failed'',
                          cdnProvider = Some (type' a)\<rparr>,
               rt1\<lparr>calls := calls rt1 @ [PurgeCdnCache (type' a) kl]\<rparr>)"
    by (rule purgeKeys_nonempty)
next
  show "purgeKeys w a [] rt1 =
            (Inr \<lparr>success = True, purgedKeys = [], message = ''No keys found to purge'',
                  cdnProvider = None\<rparr>, rt1)"
    by (rule purgeKeys_empty)
qed

text \<open>
  Instances of C5. On an adapter that reports the keys it is given, a request with the
  flag and a key list hands it the wildcard, and a request with only a key list hands it
  that list. On the S3 adapter the request with only a key list succeeds with exactly
  those keys purged; the first recorded call is the health check of the construction.
\<close>

theorem purgeCache_precedence_witness:
  "purgeCache quiet_sys
       \<lparr>purgeAll = Some True, keys = Some [''a'', ''b''], courseId = None, pattern = None\<rparr>
       (fresh\<lparr>instance' := Some echo_adapter\<rparr>)
     = Some (Inr \<lparr>success = False, purgedKeys = [], message = ''*'',
                  cdnProvider = Some CloudFlareR2\<rparr>,
             fresh\<lparr>instance' := Some echo_adapter,
                   calls := [PurgeCdnCache CloudFlareR2 [''*'']]\<rparr>)
   \<and> purgeCache quiet_sys (only_keys [''a'', ''b'']) (fresh\<lparr>instance' := Some echo_adapter\<rparr>)
     = Some (Inr \<lparr>success = False, purgedKeys = [], message = ''a,b'',
                  cdnProvider = Some CloudFlareR2\<rparr>,
             fresh\<lparr>instance' := Some echo_adapter,
                   calls := [PurgeCdnCache CloudFlareR2 [''a'', ''b'']]\<rparr>)
   \<and> purgeCache s3_sys (only_keys [''a'', ''b'']) fresh
     = Some (Inr \<lparr>success = True, purgedKeys = [''a'', ''b''],
                  message = ''Successfully purged 2 items from CDN cache'',
                  cdnProvider = Some S3CloudFront\<rparr>,
             \<lparr>instance' = Some (S3CloudFrontAdapter (S3_config s3_sys)),
              initializationPromise = None,
              promises = [Fulfilled (S3CloudFrontAdapter (S3_config s3_sys))],
              calls = [HealthCheck S3CloudFront, PurgeCdnCache S3CloudFront [''a'', ''b'']]\<rparr>)"
proof -
  let ?rt = "fresh\<lparr>instance' := Some echo_adapter\<rparr>"
  let ?all = "\<lparr>purgeAll = Some True, keys = Some [''a'', ''b''], courseId = None,
               pattern = None\<rparr>"
  let ?A = "S3CloudFrontAdapter (S3_config s3_sys)"
  have g: "getAdapter quiet_sys ?rt = Some (echo_adapter, ?rt)"
    by (rule getAdapter_cached) simp
  have en: "cdnEnabled echo_adapter" and ty: "type' echo_adapter = CloudFlareR2"
    by (simp_all add: echo_adapter_def)
  have only: "purgeAll (only_keys [''a'', ''b'']) \<noteq> Some True
      \<and> \<not> truthy (courseId (only_keys [''a'', ''b'']))
      \<and> \<not> truthy (pattern (only_keys [''a'', ''b'']))
      \<and> keys (only_keys [''a'', ''b'']) = Some [''a'', ''b''] \<and> [''a'', ''b''] \<noteq> []"
    by (simp add: only_keys_def truthy_def)
  have e1: "purgeCdnCache echo_adapter quiet_sys [''*''] = Inl (Error ''*'')"
    by (simp add: echo_adapter_def)
  have e2: "purgeCdnCache echo_adapter quiet_sys [''a'', ''b''] = Inl (Error ''a,b'')"
    by (simp add: echo_adapter_def)
  note p1 = purgeCache_precedence [OF g, where options = ?all and kl = "[''*'']"]
  note p2 = purgeCache_precedence [OF g, where options = "only_keys [''a'', ''b'']"
      and ks = "[''a'', ''b'']" and kl = "[''a'', ''b'']"]
  from p1 en have "purgeCache quiet_sys ?all ?rt = Some (purgeKeys quiet_sys echo_adapter [''*''] ?rt)"
    by simp
  moreover from p1 have "purgeKeys quiet_sys echo_adapter [''*''] ?rt
      = (Inr \<lparr>success = False, purgedKeys = [], message = ''*'',
              cdnProvider = Some CloudFlareR2\<rparr>,
         ?rt\<lparr>calls := calls ?rt @ [PurgeCdnCache CloudFlareR2 [''*'']]\<rparr>)"
    by (simp add: e1 ty)
  ultimately have a: "purgeCache quiet_sys ?all ?rt
     = Some (Inr \<lparr>success = False, purgedKeys = [], message = ''*'',
                  cdnProvider = Some CloudFlareR2\<rparr>,
             fresh\<lparr>instance' := Some echo_adapter,
                   calls := [PurgeCdnCache CloudFlareR2 [''*'']]\<rparr>)"
    by (simp add: fresh_def)
  from p2 en only have "purgeCache quiet_sys (only_keys [''a'', ''b'']) ?rt
      = Some (purgeKeys quiet_sys echo_adapter [''a'', ''b''] ?rt)"
    by simp
  moreover from p2 have "purgeKeys quiet_sys echo_adapter [''a'', ''b''] ?rt
      = (Inr \<lparr>success = False, purgedKeys = [], message = ''a,b'',
              cdnProvider = Some CloudFlareR2\<rparr>,
         ?rt\<lparr>calls := calls ?rt @ [PurgeCdnCache CloudFlareR2 [''a'', ''b'']]\<rparr>)"
    by (simp add: e2 ty)
  ultimately have b: "purgeCache quiet_sys (only_keys [''a'', ''b'']) ?rt
     = Some (Inr \<lparr>success = False, purgedKeys = [], message = ''a,b'',
                  cdnProvider = Some CloudFlareR2\<rparr>,
             fresh\<lparr>instance' := Some echo_adapter,
                   calls := [PurgeCdnCache CloudFlareR2 [''a'', ''b'']]\<rparr>)"
    by (simp add: fresh_def)
  have en3: "cdnEnabled ?A" and ty3: "type' ?A = S3CloudFront"
    by (simp_all add: S3CloudFrontAdapter_def)
  have s3: "purgeCdnCache ?A s3_sys [''a'', ''b''] = Inr True"
    by (simp add: S3CloudFrontAdapter_def S3_purgeCdnCache_def try_catch_def S3_config_def
        field_def truthy_def s3_sys_def quiet_sys_def)
  have dec: "char_of (50 :: nat) = CHR ''2''"
    by code_simp
  note p3 = purgeCache_precedence [OF getAdapter_s3_sys, where options = "only_keys [''a'', ''b'']"
      and ks = "[''a'', ''b'']" and kl = "[''a'', ''b'']"]
  let ?rt3 = "\<lparr>instance' = Some ?A, initializationPromise = None,
               promises = [Fulfilled ?A], calls = [HealthCheck S3CloudFront]\<rparr>"
  from p3 en3 only have "purgeCache s3_sys (only_keys [''a'', ''b'']) fresh
      = Some (purgeKeys s3_sys ?A [''a'', ''b''] ?rt3)"
    by simp
  moreover from p3 have "purgeKeys s3_sys ?A [''a'', ''b''] ?rt3
      = (Inr \<lparr>success = True, purgedKeys = [''a'', ''b''],
              message = ''Successfully purged 2 items from CDN cache'',
              cdnProvider = Some S3CloudFront\<rparr>,
         ?rt3\<lparr>calls := calls ?rt3 @ [PurgeCdnCache S3CloudFront [''a'', ''b'']]\<rparr>)"
    by (simp add: s3 ty3 dec)
  ultimately have c: "purgeCache s3_sys (only_keys [''a'', ''b'']) fresh
     = Some (Inr \<lparr>success = True, purgedKeys = [''a'', ''b''],
                  message = ''Successfully purged 2 items from CDN cache'',
                  cdnProvider = Some S3CloudFront\<rparr>,
             \<lparr>instance' = Some ?A, initializationPromise = None,
              promises = [Fulfilled ?A],
              calls = [HealthCheck S3CloudFront, PurgeCdnCache S3CloudFront [''a'', ''b'']]\<rparr>)"
    by simp
  from a b c show ?thesis by blast
qed

lemma getCourseAssetKeys_empty:
  "getCourseAssetKeys w cid = [] \<longleftrightarrow> (getCourse w cid = Inr None \<or> (\<exists>e. getCourse w cid = Inl e))"
  by (auto simp: getCourseAssetKeys_def split: sum.splits option.splits)

text \<open>
  C7, as the code has it. With a CDN-enabled adapter, a request that selects no strategy
  because its only target is an empty key list is answered with a failure, not with the
  successful empty result.
\<close>

theorem empty_key_list_is_no_target:
  "cdnEnabled (fst (the (getAdapter s3_sys fresh)))
   \<and> fst (the (purgeCache s3_sys (only_keys []) fresh))
       = Inr \<lparr>success = False, purgedKeys = [], message = ''No purge target specified'',
              cdnProvider = None\<rparr>"
  by (simp add: getAdapter_s3_sys purgeCache_def only_keys_def truthy_def S3CloudFrontAdapter_def)

text \<open>
  C7, amended. With a CDN-enabled adapter: when the course identifier is the strategy and
  it resolves to no keys (the course is not found or its lookup fails, and only then), the
  result is the successful one with no purged keys; when the request has no flag, no
  course identifier, no pattern and an empty or absent key list, the result is the failure
  \<^verbatim>\<open>No purge target specified\<close>. In both cases the adapter's \<^verbatim>\<open>purgeCdnCache\<close> is not invoked:
  the runtime is the one \<^verbatim>\<open>getAdapter\<close> left.
\<close>

theorem purgeCache_empty_resolution:
  assumes "getAdapter w rt = Some (a, rt1)" and "cdnEnabled a"
  shows "(purgeAll options \<noteq> Some True \<and> truthy (courseId options)
            \<and> getCourseAssetKeys w (str (courseId options)) = [] \<longrightarrow>
            purgeCache w options rt =
              Some (Inr \<lparr>success = True, purgedKeys = [], message = ''No keys found to purge'',
                         cdnProvider = None\<rparr>, rt1))
       \<and> (purgeAll options \<noteq> Some True \<and> \<not> truthy (courseId options)
            \<and> \<not> truthy (pattern options)
            \<and> (keys options = Some [] \<or> keys options = None) \<longrightarrow>
            purgeCache w options rt =
              Some (Inr \<lparr>success = False, purgedKeys = [],
                         message = ''No purge target specified'', cdnProvider = None\<rparr>, rt1))
       \<and> (getCourseAssetKeys w cid = []
            \<longleftrightarrow> (getCourse w cid = Inr None \<or> (\<exists>e. getCourse w cid = Inl e)))"
proof (intro conjI impI)
  assume "purgeAll options \<noteq> Some True \<and> truthy (courseId options)
            \<and> getCourseAssetKeys w (str (courseId options)) = []"
  with assms show "purgeCache w options rt =
              Some (Inr \<lparr>success = True, purgedKeys = [], message = ''No keys found to purge'',
                         cdnProvider = None\<rparr>, rt1)"
    by (simp add: purgeCache_def purgeKeys_empty)
next
  assume "purgeAll options \<noteq> Some True \<and> \<not> truthy (courseId options)
            \<and> \<not> truthy (pattern options)
            \<and> (keys options = Some [] \<or> keys options = None)"
  with assms show "purgeCache w options rt =
              Some (Inr \<lparr>success = False, purgedKeys = [],
                         message = ''No purge target specified'', cdnProvider = None\<rparr>, rt1)"
    by (auto simp: purgeCache_def)
next
  show "getCourseAssetKeys w cid = []
            \<longleftrightarrow> (getCourse w cid = Inr None \<or> (\<exists>e. getCourse w cid = Inl e))"
    by (rule getCourseAssetKeys_empty)
qed

text \<open>An instance of amended C7: the course table holds no course.\<close>

theorem purgeCache_empty_resolution_witness:
  "fst (the (purgeCache s3_sys
               \<lparr>purgeAll = None, keys = Some [''a''], courseId = Some ''c1'', pattern = None\<rparr>
               fresh))
     = Inr \<lparr>success = True, purgedKeys = [], message = ''No keys found to purge'',
            cdnProvider = None\<rparr>
   \<and> calls (snd (the (purgeCache s3_sys
               \<lparr>purgeAll = None, keys = Some [''a''], courseId = Some ''c1'', pattern = None\<rparr>
               fresh)))
     = [HealthCheck S3CloudFront]"
proof -
  have en: "cdnEnabled (S3CloudFrontAdapter (S3_config s3_sys))"
    by (simp add: S3CloudFrontAdapter_def)
  have k: "getCourseAssetKeys s3_sys ''c1'' = []"
    by (simp add: getCourseAssetKeys_def s3_sys_def quiet_sys_def)
  have "purgeAll \<lparr>purgeAll = None, keys = Some [''a''], courseId = Some ''c1'', pattern = None\<rparr>
          \<noteq> Some True
        \<and> truthy (courseId \<lparr>purgeAll = None, keys = Some [''a''], courseId = Some ''c1'',
                             pattern = None\<rparr>)
        \<and> getCourseAssetKeys s3_sys
            (str (courseId \<lparr>purgeAll = None, keys = Some [''a''], courseId = Some ''c1'',
                             pattern = None\<rparr>)) = []"
    using k by (simp add: truthy_def str_def)
  with purgeCache_empty_resolution [OF getAdapter_s3_sys en,
      of "\<lparr>purgeAll = None, keys = Some [''a''], courseId = Some ''c1'', pattern = None\<rparr>"]
  have "purgeCache s3_sys
          \<lparr>purgeAll = None, keys = Some [''a''], courseId = Some ''c1'', pattern = None\<rparr> fresh
        = Some (Inr \<lparr>success = True, purgedKeys = [], message = ''No keys found to purge'',
                     cdnProvider = None\<rparr>,
                \<lparr>instance' = Some (S3CloudFrontAdapter (S3_config s3_sys)),
                 initializationPromise = None,
                 promises = [Fulfilled (S3CloudFrontAdapter (S3_config s3_sys))],
                 calls = [HealthCheck S3CloudFront]\<rparr>)"
    by blast
  then show ?thesis by simp
qed

lemma S3_purge_returns: "\<exists>b. S3_purgeCdnCache cfg w ks = Inr b"
  by (auto simp: S3_purgeCdnCache_def try_catch_def Let_def split: sum.splits)

lemma R2_purge_returns: "\<exists>b. R2_purgeCdnCache cfg w ks = Inr b"
  by (auto simp: R2_purgeCdnCache_def try_catch_def Let_def split: sum.splits)

lemma purgeKeys_result: "purgeKeys w a ks rt = (res, rt') \<Longrightarrow> \<exists>r. res = Inr r"
  using purgeKeys_returns [of w a ks rt] by simp

lemma purgeCache_returns:
  "purgeCache w options rt = Some (res, rt') \<Longrightarrow> \<exists>r. res = Inr r"
  by (auto simp: purgeCache_def split: if_splits option.splits dest: purgeKeys_result)

text \<open>
  C8. A failed CDN purge is never an exception. The \<^verbatim>\<open>purgeCdnCache\<close> of each of the three
  adapters returns a boolean for every key list and every behaviour of the outside world.
  It returns \<^verbatim>\<open>false\<close> for the S3 adapter when no distribution identifier is configured or
  when the invalidation request throws, and for the R2 adapter when the zone identifier or
  the API token is missing, when the request throws or when the response is not ok.
  \<^verbatim>\<open>purgeCache\<close> returns a result whenever it completes; if the adapter's purge throws, for
  any implementation of the interface, the result has \<^verbatim>\<open>success\<close> false.
\<close>

theorem purge_failure_is_a_result:
  "(\<exists>b. purgeCdnCache (S3CloudFrontAdapter cfg) w ks = Inr b)
   \<and> (\<exists>b. purgeCdnCache (CloudFlareR2Adapter cfg) w ks = Inr b)
   \<and> purgeCdnCache (createLocalAdapter w) w ks = Inr True
   \<and> (\<not> truthy (field cfg ''cloudFrontDistributionId'') \<longrightarrow>
        purgeCdnCache (S3CloudFrontAdapter cfg) w ks = Inr False)
   \<and> (send_CreateInvalidation w (str (field cfg ''cloudFrontDistributionId''))
         (map (\<lambda>k. ''/'' @ k) ks) = Inl e \<longrightarrow>
        purgeCdnCache (S3CloudFrontAdapter cfg) w ks = Inr False)
   \<and> (\<not> truthy (env w ''CLOUDFLARE_ZONE_ID'') \<or> \<not> truthy (env w ''CLOUDFLARE_API_TOKEN'') \<longrightarrow>
        purgeCdnCache (CloudFlareR2Adapter cfg) w ks = Inr False)
   \<and> (fetch_purge_cache w (str (env w ''CLOUDFLARE_ZONE_ID'')) (str (env w ''CLOUDFLARE_API_TOKEN''))
         (map (R2_getPublicUrl cfg) ks) = Inl e \<longrightarrow>
        purgeCdnCache (CloudFlareR2Adapter cfg) w ks = Inr False)
   \<and> (fetch_purge_cache w (str (env w ''CLOUDFLARE_ZONE_ID'')) (str (env w ''CLOUDFLARE_API_TOKEN''))
         (map (R2_getPublicUrl cfg) ks) = Inr resp \<and> \<not> ok resp \<longrightarrow>
        purgeCdnCache (CloudFlareR2Adapter cfg) w ks = Inr False)
   \<and> (purgeCache w options rt = Some (res, rt') \<longrightarrow> (\<exists>r. res = Inr r))
   \<and> (kl \<noteq> [] \<and> purgeCdnCache a w kl = Inl e \<longrightarrow>
        (\<exists>r. fst (purgeKeys w a kl rt) = Inr r \<and> \<not> success r))
   \<and> (getAdapter w rt = Some (a, rt1) \<and> cdnEnabled a \<and> purgeAll options = Some True
        \<and> purgeCdnCache a w [''*''] = Inl e \<longrightarrow>
        (\<exists>r rt2. purgeCache w options rt = Some (Inr r, rt2) \<and> \<not> success r))"
proof (intro conjI impI)
  show "\<exists>b. purgeCdnCache (S3CloudFrontAdapter cfg) w ks = Inr b"
    using S3_purge_returns by (simp add: S3CloudFrontAdapter_def)
  show "\<exists>b. purgeCdnCache (CloudFlareR2Adapter cfg) w ks = Inr b"
    using R2_purge_returns by (simp add: CloudFlareR2Adapter_def)
  show "purgeCdnCache (createLocalAdapter w) w ks = Inr True"
    by (simp add: createLocalAdapter_def LocalStorageAdapter_iface_def Local_purgeCdnCache_def)
next
  assume "\<not> truthy (field cfg ''cloudFrontDistributionId'')"
  then show "purgeCdnCache (S3CloudFrontAdapter cfg) w ks = Inr False"
    by (simp add: S3CloudFrontAdapter_def S3_purgeCdnCache_def try_catch_def)
next
  assume "send_CreateInvalidation w (str (field cfg ''cloudFrontDistributionId''))
            (map (\<lambda>k. ''/'' @ k) ks) = Inl e"
  moreover have eq: "(@) ''/'' = (#) CHR ''/''"
    by (simp add: fun_eq_iff)
  ultimately show "purgeCdnCache (S3CloudFrontAdapter cfg) w ks = Inr False"
    by (simp add: S3CloudFrontAdapter_def S3_purgeCdnCache_def try_catch_def Let_def eq)
next
  assume "\<not> truthy (env w ''CLOUDFLARE_ZONE_ID'') \<or> \<not> truthy (env w ''CLOUDFLARE_API_TOKEN'')"
  then show "purgeCdnCache (CloudFlareR2Adapter cfg) w ks = Inr False"
    by (auto simp: CloudFlareR2Adapter_def R2_purgeCdnCache_def try_catch_def Let_def)
next
  assume "fetch_purge_cache w (str (env w ''CLOUDFLARE_ZONE_ID'')) (str (env w ''CLOUDFLARE_API_TOKEN''))
            (map (R2_getPublicUrl cfg) ks) = Inl e"
  then show "purgeCdnCache (CloudFlareR2Adapter cfg) w ks = Inr False"
    by (simp add: CloudFlareR2Adapter_def R2_purgeCdnCache_def try_catch_def Let_def)
next
  assume "fetch_purge_cache w (str (env w ''CLOUDFLARE_ZONE_ID'')) (str (env w ''CLOUDFLARE_API_TOKEN''))
            (map (R2_getPublicUrl cfg) ks) = Inr resp \<and> \<not> ok resp"
  then show "purgeCdnCache (CloudFlareR2Adapter cfg) w ks = Inr False"
    by (simp add: CloudFlareR2Adapter_def R2_purgeCdnCache_def try_catch_def Let_def
        split: sum.splits)
next
  assume "purgeCache w options rt = Some (res, rt')"
  then show "\<exists>r. res = Inr r" by (rule purgeCache_returns)
next
  assume "kl \<noteq> [] \<and> purgeCdnCache a w kl = Inl e"
  then have "fst (purgeKeys w a kl rt) =
       Inr \<lparr>success = False, purgedKeys = [], message = (case e of Error m \<Rightarrow> m
                                | Thrown _ \<Rightarrow> ''Unknown error during cache purge''),
            cdnProvider = Some (type' a)\<rparr>"
    by (simp add: purgeKeys_caught)
  then show "\<exists>r. fst (purgeKeys w a kl rt) = Inr r \<and> \<not> success r" by simp
next
  assume h: "getAdapter w rt = Some (a, rt1) \<and> cdnEnabled a \<and> purgeAll options = Some True
        \<and> purgeCdnCache a w [''*''] = Inl e"
  then have "purgeCache w options rt = Some (purgeKeys w a [''*''] rt1)"
    by (simp add: purgeCache_def)
  moreover from h have "fst (purgeKeys w a [''*''] rt1) =
       Inr \<lparr>success = False, purgedKeys = [], message = (case e of Error m \<Rightarrow> m
                                | Thrown _ \<Rightarrow> ''Unknown error during cache purge''),
            cdnProvider = Some (type' a)\<rparr>"
    by (simp add: purgeKeys_caught)
  ultimately have "purgeCache w options rt =
       Some (Inr \<lparr>success = False, purgedKeys = [], message = (case e of Error m \<Rightarrow> m
                                | Thrown _ \<Rightarrow> ''Unknown error during cache purge''),
            cdnProvider = Some (type' a)\<rparr>, snd (purgeKeys w a [''*''] rt1))"
    by (metis prod.collapse)
  then show "\<exists>r rt2. purgeCache w options rt = Some (Inr r, rt2) \<and> \<not> success r"
    by simp
qed

text \<open>
  Instances of C8: the S3 adapter without a distribution identifier, and \<^verbatim>\<open>purgeCache\<close> over
  an adapter whose purge throws.
\<close>

theorem purge_failure_is_a_result_witness:
  "purgeCdnCache (S3CloudFrontAdapter [(''bucketName'', Some ''bucket'')]) quiet_sys [''a'']
     = Inr False
   \<and> fst (the (purgeCache quiet_sys (only_keys [''a''])
                 (fresh\<lparr>instance' := Some throwing_adapter\<rparr>)))
     = Inr \<lparr>success = False, purgedKeys = [], message = ''connection reset'',
            cdnProvider = Some CloudFlareR2\<rparr>"
proof -
  let ?rt = "fresh\<lparr>instance' := Some throwing_adapter\<rparr>"
  have pc: "purgeCache quiet_sys (only_keys [''a'']) ?rt
        = Some (purgeKeys quiet_sys throwing_adapter [''a''] ?rt)"
    by (simp add: purgeCache_def getAdapter_cached only_keys_def truthy_def throwing_adapter_def)
  note base = purge_failure_is_a_result
      [where cfg = "[(''bucketName'', Some ''bucket'')]" and w = quiet_sys and ks = "[''a'']"
         and options = "only_keys [''a'']" and rt = ?rt
         and res = "fst (purgeKeys quiet_sys throwing_adapter [''a''] ?rt)"
         and rt' = "snd (purgeKeys quiet_sys throwing_adapter [''a''] ?rt)"
         and kl = "[''a'']" and a = throwing_adapter]
  have "\<not> truthy (field [(''bucketName'', Some ''bucket'')] ''cloudFrontDistributionId'')"
    by (simp add: field_def truthy_def)
  with base have a: "purgeCdnCache (S3CloudFrontAdapter [(''bucketName'', Some ''bucket'')])
                       quiet_sys [''a''] = Inr False"
    by blast
  from base pc have "\<exists>r. fst (purgeKeys quiet_sys throwing_adapter [''a''] ?rt) = Inr r"
    by simp
  moreover have "fst (purgeKeys quiet_sys throwing_adapter [''a''] ?rt)
     = Inr \<lparr>success = False, purgedKeys = [], message = ''connection reset'',
            cdnProvider = Some CloudFlareR2\<rparr>"
    by (simp add: purgeKeys_def try_catch_def throwing_adapter_def)
  ultimately have b: "fst (the (purgeCache quiet_sys (only_keys [''a'']) ?rt))
     = Inr \<lparr>success = False, purgedKeys = [], message = ''connection reset'',
            cdnProvider = Some CloudFlareR2\<rparr>"
    by (simp add: pc)
  from a b show ?thesis by simp
qed

section \<open>Who holds the adapter\<close>

lemma getAdapter_after_reset:
  "getAdapter w (reset rt) =
     Some (fst (createAdapter w),
           rt\<lparr>instance' := Some (fst (createAdapter w)),
              initializationPromise := None,
              promises := promises rt @ [Fulfilled (fst (createAdapter w))],
              calls := calls rt @ snd (createAdapter w)\<rparr>)"
proof -
  have "instance' (reset rt) = None" and "initializationPromise (reset rt) = None"
    by (simp_all add: reset_def)
  from getAdapter_first [OF this, of w] show ?thesis
    by (simp add: reset_def)
qed

lemma createAdapter_typo_sys: "createAdapter typo_sys = (createLocalAdapter typo_sys, [])"
  by (rule createAdapter_default) (simp_all add: typo_sys_def quiet_sys_def)

lemma first_use:
  "getStorage typo_sys new_AssetService fresh =
     Some (createLocalAdapter typo_sys,
           \<lparr>storageAdapter = Some (createLocalAdapter typo_sys)\<rparr>,
           \<lparr>instance' = Some (createLocalAdapter typo_sys), initializationPromise = None,
            promises = [Fulfilled (createLocalAdapter typo_sys)], calls = []\<rparr>)"
proof -
  have "instance' fresh = None" and "initializationPromise fresh = None"
    by (simp_all add: fresh_def)
  from getAdapter_first [OF this, of typo_sys] show ?thesis
    by (simp add: getStorage_def new_AssetService_def createAdapter_typo_sys fresh_def)
qed

lemma asset_after_first_use_eq:
  "asset_after_first_use = \<lparr>storageAdapter = Some (createLocalAdapter typo_sys)\<rparr>"
  by (simp add: asset_after_first_use_def first_use)

lemma runtime_after_reinit_eq:
  "runtime_after_reinit =
     \<lparr>instance' = Some (S3CloudFrontAdapter (S3_config s3_sys)), initializationPromise = None,
      promises = [Fulfilled (createLocalAdapter typo_sys),
                  Fulfilled (S3CloudFrontAdapter (S3_config s3_sys))],
      calls = [HealthCheck S3CloudFront]\<rparr>"
  by (simp add: runtime_after_reinit_def first_use getAdapter_after_reset createAdapter_s3_sys)

text \<open>
  C9, as the code has it. The asset service was first used under the local adapter; after
  \<^verbatim>\<open>reset\<close> and a new initialization the factory returns the S3 adapter, yet the asset
  service still works with the local adapter it stored in its private field.
\<close>

theorem asset_service_keeps_stale_adapter:
  "type' (fst (the (getAdapter s3_sys runtime_after_reinit))) = S3CloudFront
   \<and> type' (fst (the (getStorage s3_sys asset_after_first_use runtime_after_reinit))) = Local
   \<and> info_type (fst (the (getStorageInfo s3_sys asset_after_first_use runtime_after_reinit)))
       = Local"
proof -
  have i: "instance' runtime_after_reinit = Some (S3CloudFrontAdapter (S3_config s3_sys))"
    by (simp add: runtime_after_reinit_eq)
  have a: "type' (fst (the (getAdapter s3_sys runtime_after_reinit))) = S3CloudFront"
    by (simp add: getAdapter_cached [OF i] S3CloudFrontAdapter_def)
  have g: "getStorage s3_sys asset_after_first_use runtime_after_reinit
             = Some (createLocalAdapter typo_sys, asset_after_first_use, runtime_after_reinit)"
    by (simp add: getStorage_def asset_after_first_use_eq)
  have t: "type' (createLocalAdapter typo_sys) = Local"
    using createLocalAdapter_type by blast
  from g t have b:
    "type' (fst (the (getStorage s3_sys asset_after_first_use runtime_after_reinit))) = Local"
    by simp
  from g t have c:
    "info_type (fst (the (getStorageInfo s3_sys asset_after_first_use runtime_after_reinit)))
       = Local"
    by (simp add: getStorageInfo_def)
  from a b c show ?thesis by simp
qed

text \<open>
  C9, amended. After \<^verbatim>\<open>reset\<close> the next \<^verbatim>\<open>getAdapter\<close> builds the adapter anew. The CDN
  service asks the factory in every operation, so its status reports, and its purge goes
  to, the adapter the factory returns at that moment. The asset service asks the factory only while its
  private field is empty; once the field holds an adapter, \<^verbatim>\<open>getStorage\<close> returns that
  adapter in every state of the factory and leaves the factory untouched.
\<close>

theorem adapter_references_of_services:
  "(\<exists>rt'. getAdapter w (reset rt) = Some (fst (createAdapter w), rt')
           \<and> instance' rt' = Some (fst (createAdapter w)))
   \<and> (getAdapter w rt = Some (a, rt1) \<longrightarrow>
        (\<exists>st. getCdnStatus w rt = Some (st, rt1\<lparr>calls := calls rt1 @ [HealthCheck (type' a)]\<rparr>)
              \<and> provider st = type' a \<and> enabled st = cdnEnabled a
              \<and> healthy st = healthCheck a w))
   \<and> (getAdapter w rt = Some (a, rt1) \<and> purgeAll options = Some True \<longrightarrow>
        purgeCache w options rt =
          Some (if cdnEnabled a then purgeKeys w a [''*''] rt1
                else (Inr \<lparr>success = True, purgedKeys = [],
                           message = ''CDN not enabled, no cache to purge'',
                           cdnProvider = None\<rparr>, rt1)))
   \<and> (storageAdapter this = None \<and> getAdapter w rt = Some (a, rt1) \<longrightarrow>
        getStorage w this rt = Some (a, this\<lparr>storageAdapter := Some a\<rparr>, rt1))
   \<and> (storageAdapter this = Some b \<longrightarrow> getStorage w this rt = Some (b, this, rt))"
proof (intro conjI impI)
  show "\<exists>rt'. getAdapter w (reset rt) = Some (fst (createAdapter w), rt')
           \<and> instance' rt' = Some (fst (createAdapter w))"
    by (simp add: getAdapter_after_reset)
next
  assume "getAdapter w rt = Some (a, rt1)"
  then show "\<exists>st. getCdnStatus w rt = Some (st, rt1\<lparr>calls := calls rt1 @ [HealthCheck (type' a)]\<rparr>)
              \<and> provider st = type' a \<and> enabled st = cdnEnabled a
              \<and> healthy st = healthCheck a w"
    by (simp add: getCdnStatus_def)
next
  assume "getAdapter w rt = Some (a, rt1) \<and> purgeAll options = Some True"
  then show "purgeCache w options rt =
          Some (if cdnEnabled a then purgeKeys w a [''*''] rt1
                else (Inr \<lparr>success = True, purgedKeys = [],
                           message = ''CDN not enabled, no cache to purge'',
                           cdnProvider = None\<rparr>, rt1))"
    by (simp add: purgeCache_def)
next
  assume "storageAdapter this = None \<and> getAdapter w rt = Some (a, rt1)"
  then show "getStorage w this rt = Some (a, this\<lparr>storageAdapter := Some a\<rparr>, rt1)"
    by (simp add: getStorage_def)
next
  assume "storageAdapter this = Some b"
  then show "getStorage w this rt = Some (b, this, rt)"
    by (simp add: getStorage_def)
qed

text \<open>
  An instance of amended C9 in the scenario above: the CDN service reports the S3 adapter,
  the asset service returns the local adapter it holds.
\<close>

theorem adapter_references_of_services_witness:
  "provider (fst (the (getCdnStatus s3_sys runtime_after_reinit))) = S3CloudFront
   \<and> getStorage s3_sys asset_after_first_use runtime_after_reinit
       = Some (createLocalAdapter typo_sys, asset_after_first_use, runtime_after_reinit)"
proof -
  note base = adapter_references_of_services
      [where w = s3_sys and rt = runtime_after_reinit
         and a = "S3CloudFrontAdapter (S3_config s3_sys)" and ?rt1.0 = runtime_after_reinit
         and this = asset_after_first_use and b = "createLocalAdapter typo_sys"]
  have i: "instance' runtime_after_reinit = Some (S3CloudFrontAdapter (S3_config s3_sys))"
    by (simp add: runtime_after_reinit_eq)
  have g: "getAdapter s3_sys runtime_after_reinit
             = Some (S3CloudFrontAdapter (S3_config s3_sys), runtime_after_reinit)"
    by (rule getAdapter_cached [OF i])
  have s: "storageAdapter asset_after_first_use = Some (createLocalAdapter typo_sys)"
    by (simp add: asset_after_first_use_eq)
  from base g obtain st where
    "getCdnStatus s3_sys runtime_after_reinit
       = Some (st, runtime_after_reinit\<lparr>calls := calls runtime_after_reinit
                 @ [HealthCheck (type' (S3CloudFrontAdapter (S3_config s3_sys)))]\<rparr>)"
    and "provider st = type' (S3CloudFrontAdapter (S3_config s3_sys))"
    by blast
  then have a: "provider (fst (the (getCdnStatus s3_sys runtime_after_reinit))) = S3CloudFront"
    by (simp add: S3CloudFrontAdapter_def)
  from base s have b: "getStorage s3_sys asset_after_first_use runtime_after_reinit
       = Some (createLocalAdapter typo_sys, asset_after_first_use, runtime_after_reinit)"
    by blast
  from a b show ?thesis by simp
qed

section \<open>Concurrent callers: one construction\<close>

lemma tasks_ok_update:
  assumes "tasks_ok v ts"
    and "t = Idle \<or> t = Blocked (Following 0) \<or> t = Blocked (Awaiting 0) \<or> v = Some a \<and> t = Done a"
  shows "tasks_ok v (ts[i := t])"
proof -
  have "set (ts[i := t]) \<subseteq> insert t (set ts)"
    by (rule set_update_subset_insert)
  with assms show ?thesis
    by (auto simp: tasks_ok_def list_all_iff split: option.splits)
qed

lemma tasks_ok_Some: "tasks_ok None ts \<Longrightarrow> tasks_ok (Some a) ts"
  by (auto simp: tasks_ok_def list_all_iff)

lemma all_idle_tasks_ok: "list_all (\<lambda>t. t = Idle) ts \<Longrightarrow> tasks_ok None ts"
  by (auto simp: tasks_ok_def list_all_iff)

lemma tasks_ok_nth:
  "tasks_ok v ts \<Longrightarrow> i < length ts \<Longrightarrow>
     ts ! i = Idle \<or> ts ! i = Blocked (Following 0) \<or> ts ! i = Blocked (Awaiting 0)
     \<or> (\<exists>a. v = Some a \<and> ts ! i = Done a)"
  by (auto simp: tasks_ok_def list_all_length split: option.splits)

lemma call_phase0:
  assumes "phase0 rt ts" and "i < length ts"
  shows "phase1 (fst (step w (Call i) (rt, ts))) (snd (step w (Call i) (rt, ts)))"
proof -
  from assms have idle: "ts ! i = Idle"
    by (simp add: phase0_def list_all_length)
  from assms(1) have ok: "tasks_ok None ts"
    by (simp add: phase0_def all_idle_tasks_ok)
  have "tasks_ok None (ts[i := Blocked (Awaiting 0)])"
    by (rule tasks_ok_update [OF ok]) simp
  with assms idle show ?thesis
    by (simp add: phase0_def phase1_def getAdapter_enter_def)
qed

lemma call_phase1:
  assumes "phase1 rt ts"
  shows "phase1 (fst (step w (Call i) (rt, ts))) (snd (step w (Call i) (rt, ts)))"
proof -
  from assms have ok: "tasks_ok None ts" by (simp add: phase1_def)
  have "tasks_ok None (ts[i := Blocked (Following 0)])"
    by (rule tasks_ok_update [OF ok]) simp
  with assms show ?thesis
    by (simp add: phase1_def getAdapter_enter_def)
qed

lemma call_phase2:
  assumes "phase2 w rt ts"
  shows "phase2 w (fst (step w (Call i) (rt, ts))) (snd (step w (Call i) (rt, ts)))"
proof -
  let ?a = "fst (createAdapter w)"
  from assms have ok: "tasks_ok (Some ?a) ts" by (simp add: phase2_def)
  have f: "tasks_ok (Some ?a) (ts[i := Blocked (Following 0)])"
    by (rule tasks_ok_update [OF ok]) simp
  have d: "tasks_ok (Some ?a) (ts[i := Done ?a])"
    by (rule tasks_ok_update [OF ok]) simp
  from assms f d show ?thesis
    by (auto simp: phase2_def getAdapter_enter_def)
qed

lemma settle_phase0: "phase0 rt ts \<Longrightarrow> settle w p rt = rt"
  by (simp add: phase0_def settle_def)

lemma settle_phase1_other: "phase1 rt ts \<Longrightarrow> p \<noteq> 0 \<Longrightarrow> settle w p rt = rt"
  by (simp add: phase1_def settle_def)

lemma settle_phase1:
  assumes "phase1 rt ts"
  shows "phase2 w (settle w 0 rt) ts"
  using assms
  by (simp add: phase1_def phase2_def settle_def tasks_ok_Some split: prod.splits)

lemma settle_phase2: "phase2 w rt ts \<Longrightarrow> settle w p rt = rt"
  by (cases p) (simp_all add: phase2_def settle_def)

lemma resume_phase0:
  assumes "phase0 rt ts"
  shows "step w (Resume i) (rt, ts) = (rt, ts)"
proof (cases "i < length ts")
  case True
  with assms have "ts ! i = Idle" by (simp add: phase0_def list_all_length)
  with True show ?thesis by simp
next
  case False
  then show ?thesis by simp
qed

lemma resume_phase1:
  assumes "phase1 rt ts"
  shows "step w (Resume i) (rt, ts) = (rt, ts)"
proof (cases "i < length ts")
  case True
  from assms have ok: "tasks_ok None ts" and pv: "promise_value rt 0 = None"
    by (simp_all add: phase1_def promise_value_def)
  from tasks_ok_nth [OF ok True] pv True show ?thesis by auto
next
  case False
  then show ?thesis by simp
qed

lemma resume_phase2:
  assumes "phase2 w rt ts"
  shows "phase2 w (fst (step w (Resume i) (rt, ts))) (snd (step w (Resume i) (rt, ts)))"
proof (cases "i < length ts")
  case True
  let ?a = "fst (createAdapter w)"
  from assms have ok: "tasks_ok (Some ?a) ts" and pv: "promise_value rt 0 = Some ?a"
    by (simp_all add: phase2_def promise_value_def)
  have d: "tasks_ok (Some ?a) (ts[i := Done ?a])"
    by (rule tasks_ok_update [OF ok]) simp
  from tasks_ok_nth [OF ok True]
  show ?thesis
  proof (elim disjE exE conjE)
    assume "ts ! i = Idle"
    with True assms show ?thesis by simp
  next
    assume "ts ! i = Blocked (Following 0)"
    with True assms pv d show ?thesis by (simp add: phase2_def)
  next
    assume "ts ! i = Blocked (Awaiting 0)"
    with True assms pv d show ?thesis
      by (simp add: phase2_def getAdapter_resume_def)
  next
    fix a assume "ts ! i = Done a"
    with True assms show ?thesis by simp
  qed
next
  case False
  with assms show ?thesis by simp
qed

lemma inv_step: "inv w st \<Longrightarrow> inv w (step w e st)"
proof -
  assume a: "inv w st"
  obtain rt ts where st: "st = (rt, ts)" by (cases st)
  from a st consider "phase0 rt ts" | "phase1 rt ts" | "phase2 w rt ts"
    by (auto simp: inv_def)
  then show ?thesis
  proof cases
    case 1
    show ?thesis
    proof (cases e)
      case (Call i)
      show ?thesis
      proof (cases "i < length ts")
        case True
        from call_phase0 [OF 1 True, of w] Call st show ?thesis by (simp add: inv_def)
      next
        case False
        with 1 Call st show ?thesis by (simp add: inv_def)
      qed
    next
      case (Settle p)
      with 1 st settle_phase0 [OF 1, of w p] show ?thesis by (simp add: inv_def)
    next
      case (Resume i)
      with 1 st resume_phase0 [OF 1, of w i] show ?thesis by (simp add: inv_def)
    qed
  next
    case 2
    show ?thesis
    proof (cases e)
      case (Call i)
      with call_phase1 [OF 2, of w i] st show ?thesis by (simp add: inv_def)
    next
      case (Settle p)
      show ?thesis
      proof (cases "p = 0")
        case True
        with Settle st settle_phase1 [OF 2, of w] show ?thesis by (simp add: inv_def)
      next
        case False
        with Settle st 2 settle_phase1_other [OF 2 False, of w] show ?thesis
          by (simp add: inv_def)
      qed
    next
      case (Resume i)
      with 2 st resume_phase1 [OF 2, of w i] show ?thesis by (simp add: inv_def)
    qed
  next
    case 3
    show ?thesis
    proof (cases e)
      case (Call i)
      with call_phase2 [OF 3, of i] st show ?thesis by (simp add: inv_def)
    next
      case (Settle p)
      with 3 st settle_phase2 [OF 3, of p] show ?thesis by (simp add: inv_def)
    next
      case (Resume i)
      with resume_phase2 [OF 3, of i] st show ?thesis by (simp add: inv_def)
    qed
  qed
qed

lemma inv_run: "inv w st \<Longrightarrow> inv w (run w es st)"
  by (induction es arbitrary: st) (simp_all add: inv_step)

lemma inv_fresh: "inv w (fresh, replicate N Idle)"
  by (simp add: inv_def phase0_def fresh_def list_all_iff)

lemma weight_update:
  "i < length ts \<Longrightarrow>
     sum_list (map task_weight (ts[i := t])) + task_weight (ts ! i)
       = sum_list (map task_weight ts) + task_weight t"
proof (induction ts arbitrary: i)
  case Nil
  then show ?case by simp
next
  case (Cons x xs)
  show ?case
  proof (cases i)
    case 0
    then show ?thesis by simp
  next
    case (Suc j)
    with Cons.prems have "j < length xs" by simp
    from Cons.IH [OF this] Suc show ?thesis by simp
  qed
qed

lemma not_all_done:
  assumes "\<not> all_done ts"
  shows "\<exists>i<length ts. \<forall>a. ts ! i \<noteq> Done a"
proof -
  from assms obtain i where i: "i < length ts"
    and n: "\<not> (case ts ! i of Done _ \<Rightarrow> True | _ \<Rightarrow> False)"
    by (auto simp: all_done_def list_all_length)
  from n have "\<forall>a. ts ! i \<noteq> Done a" by auto
  with i show ?thesis by blast
qed

lemma progress_call_phase0:
  assumes "phase0 rt ts" and "i < length ts"
  shows "weight (step w (Call i) (rt, ts)) < weight (rt, ts)"
proof -
  from assms have idle: "ts ! i = Idle"
    by (simp add: phase0_def list_all_length)
  from weight_update [OF assms(2), of "Blocked (Awaiting 0)"] idle
  have "sum_list (map task_weight (ts[i := Blocked (Awaiting 0)])) + 3
          = sum_list (map task_weight ts) + 1" by simp
  with assms idle show ?thesis
    by (simp add: weight_def in_flight_def phase0_def getAdapter_enter_def)
qed

lemma progress_call_idle:
  assumes "phase1 rt ts \<or> phase2 w rt ts" and "i < length ts" and "ts ! i = Idle"
  shows "weight (step w (Call i) (rt, ts)) < weight (rt, ts)"
proof -
  from weight_update [OF assms(2), of "Blocked (Following 0)"] assms(3)
  have f: "sum_list (map task_weight (ts[i := Blocked (Following 0)])) + 3
          = sum_list (map task_weight ts) + 1" by simp
  from weight_update [OF assms(2), of "Done (fst (createAdapter w))"] assms(3)
  have d: "sum_list (map task_weight (ts[i := Done (fst (createAdapter w))])) + 3
          = sum_list (map task_weight ts)" by simp
  from assms(1) show ?thesis
  proof
    assume "phase1 rt ts"
    with assms(2,3) f show ?thesis
      by (simp add: weight_def phase1_def getAdapter_enter_def)
  next
    assume "phase2 w rt ts"
    with assms(2,3) f d show ?thesis
      by (auto simp: weight_def phase2_def getAdapter_enter_def)
  qed
qed

lemma progress_settle:
  assumes "phase1 rt ts"
  shows "weight (step w (Settle 0) (rt, ts)) < weight (rt, ts)"
  using assms
  by (simp add: weight_def in_flight_def phase1_def settle_def split: prod.splits)

lemma progress_resume:
  assumes "phase2 w rt ts" and "i < length ts"
    and "ts ! i = Blocked (Following 0) \<or> ts ! i = Blocked (Awaiting 0)"
  shows "weight (step w (Resume i) (rt, ts)) < weight (rt, ts)"
proof -
  let ?a = "fst (createAdapter w)"
  from assms(1) have pv: "promise_value rt 0 = Some ?a"
    by (simp add: phase2_def promise_value_def)
  from assms(3) have "task_weight (ts ! i) = 1" by auto
  with weight_update [OF assms(2), of "Done ?a"]
  have d: "sum_list (map task_weight (ts[i := Done ?a])) + 1 = sum_list (map task_weight ts)"
    by simp
  from assms(3) show ?thesis
  proof
    assume "ts ! i = Blocked (Following 0)"
    with assms(2) pv d show ?thesis by (simp add: weight_def)
  next
    assume "ts ! i = Blocked (Awaiting 0)"
    with assms(2) pv d show ?thesis
      by (simp add: weight_def getAdapter_resume_def in_flight_def)
  qed
qed

lemma progress:
  assumes "inv w (rt, ts)" and "\<not> all_done ts"
  shows "\<exists>e. weight (step w e (rt, ts)) < weight (rt, ts)"
proof -
  from not_all_done [OF assms(2)] obtain i where i: "i < length ts"
    and nd: "\<forall>a. ts ! i \<noteq> Done a" by blast
  from assms(1) consider "phase0 rt ts" | "phase1 rt ts" | "phase2 w rt ts"
    by (auto simp: inv_def)
  then show ?thesis
  proof cases
    case 1
    from progress_call_phase0 [OF 1 i] show ?thesis by blast
  next
    case 2
    then have ok: "tasks_ok None ts" by (simp add: phase1_def)
    from tasks_ok_nth [OF ok i]
    have "ts ! i = Idle \<or> ts ! i = Blocked (Following 0) \<or> ts ! i = Blocked (Awaiting 0)"
      by simp
    then show ?thesis
    proof
      assume "ts ! i = Idle"
      with progress_call_idle [of rt ts w i] 2 i show ?thesis by blast
    next
      assume "ts ! i = Blocked (Following 0) \<or> ts ! i = Blocked (Awaiting 0)"
      from progress_settle [OF 2] show ?thesis by blast
    qed
  next
    case 3
    then have ok: "tasks_ok (Some (fst (createAdapter w))) ts" by (simp add: phase2_def)
    from tasks_ok_nth [OF ok i] nd
    have "ts ! i = Idle \<or> ts ! i = Blocked (Following 0) \<or> ts ! i = Blocked (Awaiting 0)"
      by auto
    then show ?thesis
    proof
      assume "ts ! i = Idle"
      with progress_call_idle [of rt ts w i] 3 i show ?thesis by blast
    next
      assume b: "ts ! i = Blocked (Following 0) \<or> ts ! i = Blocked (Awaiting 0)"
      from progress_resume [OF 3 i b] show ?thesis by blast
    qed
  qed
qed

lemma completion: "inv w st \<Longrightarrow> \<exists>es. all_done (snd (run w es st))"
proof (induction st rule: measure_induct_rule [where f = weight])
  case (less st)
  obtain rt ts where st: "st = (rt, ts)" by (cases st)
  show ?case
  proof (cases "all_done ts")
    case True
    with st have "all_done (snd (run w [] st))" by simp
    then show ?thesis by blast
  next
    case False
    from progress [of w rt ts] less.prems st False
    obtain e where "weight (step w e st) < weight st" by auto
    moreover have "inv w (step w e st)" using less.prems by (rule inv_step)
    ultimately obtain es where "all_done (snd (run w es (step w e st)))"
      using less.IH by blast
    then have "all_done (snd (run w (e # es) st))" by simp
    then show ?thesis by blast
  qed
qed

lemma step_length: "length (snd (step w e st)) = length (snd st)"
proof -
  obtain rt ts where st: "st = (rt, ts)" by (cases st)
  show ?thesis
  proof (cases e)
    case (Call i)
    with st show ?thesis
      by (simp add: getAdapter_enter_def Let_def split: option.splits)
  next
    case (Settle p)
    with st show ?thesis by simp
  next
    case (Resume i)
    with st show ?thesis
      by (simp add: getAdapter_resume_def split: task.splits suspended.splits option.splits)
  qed
qed

lemma run_length: "length (snd (run w es st)) = length (snd st)"
  by (induction es arbitrary: st) (simp_all add: step_length)

lemma inv_counts:
  assumes "inv w (rt, ts)"
  shows "length (promises rt) \<le> 1 \<and> in_flight rt \<le> 1
         \<and> (calls rt = [] \<or> calls rt = snd (createAdapter w))"
  using assms
  by (auto simp: inv_def phase0_def phase1_def phase2_def in_flight_def)

lemma inv_done:
  assumes "inv w (rt, ts)" and "i < length ts" and "ts ! i = Done a"
  shows "a = fst (createAdapter w) \<and> promise_value rt 0 = Some a"
proof -
  from assms(1) consider "phase0 rt ts" | "phase1 rt ts" | "phase2 w rt ts"
    by (auto simp: inv_def)
  then show ?thesis
  proof cases
    case 1
    with assms(2,3) show ?thesis by (simp add: phase0_def list_all_length)
  next
    case 2
    then have "tasks_ok None ts" by (simp add: phase1_def)
    from tasks_ok_nth [OF this assms(2)] assms(3) show ?thesis by simp
  next
    case 3
    then have "tasks_ok (Some (fst (createAdapter w))) ts" by (simp add: phase2_def)
    from tasks_ok_nth [OF this assms(2)] assms(3) 3 show ?thesis
      by (simp add: phase2_def promise_value_def)
  qed
qed

lemma inv_all_done:
  assumes "inv w (rt, ts)" and "ts \<noteq> []" and "all_done ts"
  shows "length (promises rt) = 1 \<and> in_flight rt = 0 \<and> calls rt = snd (createAdapter w)"
proof -
  from assms(2) have l: "0 < length ts" by simp
  from assms(3) l have "case ts ! 0 of Done _ \<Rightarrow> True | _ \<Rightarrow> False"
    by (simp add: all_done_def list_all_length)
  then obtain a where d: "ts ! 0 = Done a"
    by (cases "ts ! 0") auto
  from assms(1) consider "phase0 rt ts" | "phase1 rt ts" | "phase2 w rt ts"
    by (auto simp: inv_def)
  then show ?thesis
  proof cases
    case 1
    with l d show ?thesis by (simp add: phase0_def list_all_length)
  next
    case 2
    then have "tasks_ok None ts" by (simp add: phase1_def)
    from tasks_ok_nth [OF this l] d show ?thesis by simp
  next
    case 3
    then show ?thesis by (simp add: phase2_def in_flight_def)
  qed
qed

lemma createAdapter_calls: "length (snd (createAdapter w)) \<le> 1"
  by (simp add: createAdapter_def createCloudFlareR2Adapter_def createS3CloudFrontAdapter_def
      Let_def)

text \<open>
  C3. Let any number of callers invoke \<^verbatim>\<open>getAdapter\<close> on a fresh factory and let the events
  (calls, the end of the construction, resumptions) come in any order. In every state
  reached, \<^verbatim>\<open>createAdapter\<close> has been started at most once and at most one construction is
  in flight; every caller that has received an adapter has received the value of promise 0,
  the adapter of that one construction; the adapter calls on record are none or those of
  the one construction, which holds at most one health check. When all callers (at least
  one) have received their adapter, \<^verbatim>\<open>createAdapter\<close> has run exactly once. From every state
  reached the events can continue so that all callers receive their adapter.
\<close>

theorem concurrent_getAdapter_constructs_once:
  assumes "run w es (fresh, replicate N Idle) = (rt, ts)"
  shows "length ts = N
       \<and> length (promises rt) \<le> 1 \<and> in_flight rt \<le> 1
       \<and> (\<forall>i<N. \<forall>a. ts ! i = Done a \<longrightarrow>
             a = fst (createAdapter w) \<and> promise_value rt 0 = Some a)
       \<and> (calls rt = [] \<or> calls rt = snd (createAdapter w))
       \<and> length (snd (createAdapter w)) \<le> 1
       \<and> (1 \<le> N \<and> all_done ts \<longrightarrow>
             length (promises rt) = 1 \<and> in_flight rt = 0 \<and> calls rt = snd (createAdapter w))
       \<and> (\<exists>es'. all_done (snd (run w es' (rt, ts))))"
proof -
  have "inv w (run w es (fresh, replicate N Idle))"
    by (rule inv_run) (rule inv_fresh)
  with assms have I: "inv w (rt, ts)" by simp
  from run_length [of w es "(fresh, replicate N Idle)"] assms
  have L: "length ts = N" by simp
  have D: "\<forall>i<N. \<forall>a. ts ! i = Done a \<longrightarrow>
             a = fst (createAdapter w) \<and> promise_value rt 0 = Some a"
    using inv_done [OF I] L by blast
  have A: "1 \<le> N \<and> all_done ts \<longrightarrow>
             length (promises rt) = 1 \<and> in_flight rt = 0 \<and> calls rt = snd (createAdapter w)"
  proof
    assume h: "1 \<le> N \<and> all_done ts"
    with L have "ts \<noteq> []" by auto
    from inv_all_done [OF I this] h
    show "length (promises rt) = 1 \<and> in_flight rt = 0 \<and> calls rt = snd (createAdapter w)"
      by blast
  qed
  from completion [OF I] have C: "\<exists>es'. all_done (snd (run w es' (rt, ts)))" .
  from L inv_counts [OF I] D createAdapter_calls [of w] A C show ?thesis by blast
qed

text \<open>
  An instance of C3: two callers and the fully configured S3 adapter. Both calls are made
  before the construction ends; the second caller is resumed first.
\<close>

theorem concurrent_getAdapter_constructs_once_witness:
  "snd (run s3_sys [Call 0, Call (Suc 0), Settle 0, Resume (Suc 0), Resume 0]
          (fresh, replicate 2 Idle))
     = [Done (S3CloudFrontAdapter (S3_config s3_sys)),
        Done (S3CloudFrontAdapter (S3_config s3_sys))]
   \<and> length (promises (fst (run s3_sys [Call 0, Call (Suc 0), Settle 0, Resume (Suc 0), Resume 0]
          (fresh, replicate 2 Idle)))) = 1
   \<and> calls (fst (run s3_sys [Call 0, Call (Suc 0), Settle 0, Resume (Suc 0), Resume 0]
          (fresh, replicate 2 Idle))) = [HealthCheck S3CloudFront]"
proof -
  let ?A = "S3CloudFrontAdapter (S3_config s3_sys)"
  let ?es = "[Call 0, Call (Suc 0), Settle 0, Resume (Suc 0), Resume 0]"
  let ?rt = "\<lparr>instance' = Some ?A, initializationPromise = None,
              promises = [Fulfilled ?A], calls = [HealthCheck S3CloudFront]\<rparr>"
  have two: "replicate 2 Idle = [Idle, Idle]"
    by (simp add: numeral_2_eq_2)
  have r: "run s3_sys ?es (fresh, replicate 2 Idle) = (?rt, [Done ?A, Done ?A])"
    by (simp add: two fresh_def getAdapter_enter_def settle_def createAdapter_s3_sys
        promise_value_def getAdapter_resume_def)
  have d: "all_done [Done ?A, Done ?A]"
    by (simp add: all_done_def)
  from concurrent_getAdapter_constructs_once [OF r] d
  have "length (promises ?rt) = 1 \<and> calls ?rt = snd (createAdapter s3_sys)"
    by simp
  with r show ?thesis by (simp add: createAdapter_s3_sys)
qed

end
